theory Spec2Isabelle
  imports Complex_Main "HOL-Library.Sublist"
begin

section \<open>Go strings and the library calls of the importer\<close>

text \<open>
  A Go string is a sequence of bytes holding UTF-8 text, here a \<^typ>\<open>string\<close>.
  \<^verbatim>\<open>strings.TrimSpace\<close> removes the leading and the trailing white-space runes.
  \<open>space_encodings\<close> lists the UTF-8 encodings of the code points for which
  \<^verbatim>\<open>unicode.IsSpace\<close> holds: U+0009 to U+000D, U+0020, U+0085, U+00A0, U+1680,
  U+2000 to U+200A, U+2028, U+2029, U+202F, U+205F and U+3000.
\<close>

definition space_encodings :: "string list" where
  "space_encodings =
     [[CHR 0x09], [CHR 0x0A], [CHR 0x0B], [CHR 0x0C], [CHR 0x0D], [CHR 0x20],
      [CHR 0xC2, CHR 0x85], [CHR 0xC2, CHR 0xA0],
      [CHR 0xE1, CHR 0x9A, CHR 0x80],
      [CHR 0xE2, CHR 0x80, CHR 0x80], [CHR 0xE2, CHR 0x80, CHR 0x81],
      [CHR 0xE2, CHR 0x80, CHR 0x82], [CHR 0xE2, CHR 0x80, CHR 0x83],
      [CHR 0xE2, CHR 0x80, CHR 0x84], [CHR 0xE2, CHR 0x80, CHR 0x85],
      [CHR 0xE2, CHR 0x80, CHR 0x86], [CHR 0xE2, CHR 0x80, CHR 0x87],
      [CHR 0xE2, CHR 0x80, CHR 0x88], [CHR 0xE2, CHR 0x80, CHR 0x89],
      [CHR 0xE2, CHR 0x80, CHR 0x8A],
      [CHR 0xE2, CHR 0x80, CHR 0xA8], [CHR 0xE2, CHR 0x80, CHR 0xA9],
      [CHR 0xE2, CHR 0x80, CHR 0xAF], [CHR 0xE2, CHR 0x81, CHR 0x9F],
      [CHR 0xE3, CHR 0x80, CHR 0x80]]"

text \<open>The width in bytes of the first of \<open>encs\<close> that the string starts with, 0 if none does.\<close>

definition leading_width :: "string list \<Rightarrow> string \<Rightarrow> nat" where
  "leading_width encs s =
     (case filter (\<lambda>e. e \<noteq> [] \<and> take (length e) s = e) encs of
        [] \<Rightarrow> 0
      | e # _ \<Rightarrow> length e)"

lemma leading_width_le: "leading_width encs s \<le> length s"
proof (cases "filter (\<lambda>e. e \<noteq> [] \<and> take (length e) s = e) encs")
  case Nil
  then show ?thesis by (simp add: leading_width_def)
next
  case (Cons e es)
  then have "e \<in> set (filter (\<lambda>e. e \<noteq> [] \<and> take (length e) s = e) encs)" by simp
  then have "take (length e) s = e" by simp
  then have "length e = min (length s) (length e)" by (metis length_take)
  then show ?thesis using Cons by (simp add: leading_width_def)
qed

function trim_leading :: "string list \<Rightarrow> string \<Rightarrow> string" where
  "trim_leading encs s =
     (if leading_width encs s = 0 then s
      else trim_leading encs (drop (leading_width encs s) s))"
  by pat_completeness auto
termination
proof (relation "measure (\<lambda>(encs, s). length s)")
  show "wf (measure (\<lambda>(encs, s). length s))" by simp
next
  fix encs :: "string list" and s :: string
  assume "leading_width encs s \<noteq> 0"
  moreover have "leading_width encs s \<le> length s" by (rule leading_width_le)
  ultimately show "((encs, drop (leading_width encs s) s), (encs, s))
      \<in> measure (\<lambda>(encs, s). length s)"
    by simp
qed

declare trim_leading.simps [simp del]

definition TrimSpace :: "string \<Rightarrow> string" where
  "TrimSpace s =
     rev (trim_leading (map rev space_encodings) (rev (trim_leading space_encodings s)))"

text \<open>
  \<^verbatim>\<open>strings.ReplaceAll(s, old, new)\<close> for a pattern \<open>old\<close> of one byte, which is
  how the source calls it (\<^verbatim>\<open>","\<close> and \<^verbatim>\<open>" "\<close>).
\<close>

primrec ReplaceAll :: "string \<Rightarrow> char \<Rightarrow> string \<Rightarrow> string" where
  "ReplaceAll [] old new = []"
| "ReplaceAll (c # cs) old new = (if c = old then new else [c]) @ ReplaceAll cs old new"

text \<open>
  \<^verbatim>\<open>strconv.ParseFloat\<close> belongs to the Go library, not to the repository: the
  importer is modelled for any parser \<open>pf\<close>, a float64 being idealised as a rational.
  \<open>ParseFloat_decimal\<close> is an instance for evaluation, the library function on plain
  decimal literals: an optional sign, digits with an optional point, at least one digit,
  an optional decimal exponent, and the range error for a value that rounds beyond the
  largest float64. The other forms the library reads (hexadecimal literals, infinities,
  NaN, digit separators) are outside it, and it refuses them; the value is the exact
  decimal, not its rounding to binary64.
\<close>

datatype NumError = ErrSyntax | ErrRange

definition is_digit :: "char \<Rightarrow> bool" where
  "is_digit c = (48 \<le> (of_char c :: int) \<and> (of_char c :: int) \<le> 57)"

definition digits_value :: "string \<Rightarrow> int" where
  "digits_value ds = foldl (\<lambda>acc c. 10 * acc + ((of_char c :: int) - 48)) 0 ds"

definition split_sign :: "string \<Rightarrow> bool \<times> string" where
  "split_sign s =
     (case s of
        [] \<Rightarrow> (False, [])
      | c # cs \<Rightarrow>
          if c = CHR ''-'' then (True, cs)
          else if c = CHR ''+'' then (False, cs)
          else (False, c # cs))"

definition parse_exponent :: "string \<Rightarrow> int option" where
  "parse_exponent s =
     (case s of
        [] \<Rightarrow> Some 0
      | c # cs \<Rightarrow>
          if c = CHR ''e'' \<or> c = CHR ''E'' then
            (let (neg, ds) = split_sign cs in
               if ds = [] \<or> \<not> list_all is_digit ds then None
               else Some (if neg then - digits_value ds else digits_value ds))
          else None)"

text \<open>
  The least magnitude that rounds to infinity: \<open>2 ^ 1024 - 2 ^ 970\<close>, half way between
  the largest float64 and \<open>2 ^ 1024\<close>.
\<close>

definition float64_overflow :: rat where
  "float64_overflow = 2 ^ 1024 - 2 ^ 970"

definition ParseFloat_decimal :: "string \<Rightarrow> NumError + rat" where
  "ParseFloat_decimal s =
     (let (neg, body) = split_sign s;
          ip = takeWhile is_digit body;
          rest = dropWhile is_digit body;
          fp = (case rest of
                  [] \<Rightarrow> []
                | c # cs \<Rightarrow> if c = CHR ''.'' then takeWhile is_digit cs else []);
          tail = (case rest of
                    [] \<Rightarrow> []
                  | c # cs \<Rightarrow> if c = CHR ''.'' then dropWhile is_digit cs else rest)
      in if ip = [] \<and> fp = [] then Inl ErrSyntax
         else
           (case parse_exponent tail of
              None \<Rightarrow> Inl ErrSyntax
            | Some e \<Rightarrow>
                (let m = (of_int (digits_value (ip @ fp)) :: rat) / 10 ^ length fp;
                     v = (if 0 \<le> e then m * 10 ^ nat e else m / 10 ^ nat (- e))
                 in if float64_overflow \<le> v then Inl ErrRange
                    else Inr (if neg then - v else v))))"

section \<open>The persisted schema\<close>

text \<open>
  The five tables of the schema file, a row per record. A \<^verbatim>\<open>DECIMAL\<close> column holds a
  rational (its rounding to two decimals is not modelled: a value is stored as it is
  given); a column without \<^verbatim>\<open>NOT NULL\<close> holds an option, \<open>None\<close> being
  \<^verbatim>\<open>NULL\<close>. The field prefixes are the aliases of the queries (\<open>p\<close>, \<open>m\<close>,
  \<open>pt\<close>, \<open>pw\<close>).
\<close>

record materials_row =
  m_id :: int
  m_material_name :: string
  m_wasting_percentage :: "rat option"

record products_types_row =
  pt_id :: int
  pt_type_name :: string
  pt_type_ratio :: "rat option"

record workshops_row =
  w_id :: int
  w_name :: string
  w_type :: "string option"

record products_row =
  p_id :: int
  p_product_name :: string
  p_material_id :: int
  p_type_id :: int
  p_min_price :: "rat option"
  p_article :: "string option"

record products_workshop_row =
  pw_id :: int
  pw_product_id :: int
  pw_workshop_id :: int
  pw_production_time :: "rat option"

text \<open>
  The two sequences are the \<^verbatim>\<open>SERIAL\<close> counters of the tables the code inserts
  into: each holds the last value handed out.
\<close>

record db =
  materials :: "materials_row list"
  products_types :: "products_types_row list"
  workshops :: "workshops_row list"
  products :: "products_row list"
  products_workshop :: "products_workshop_row list"
  products_id_seq :: int
  products_workshop_id_seq :: int

text \<open>The \<^verbatim>\<open>PRIMARY KEY\<close> constraints of the three tables the read query joins.\<close>

definition primary_keys :: "db \<Rightarrow> bool" where
  "primary_keys d =
     (distinct (map p_id (products d)) \<and>
      distinct (map m_id (materials d)) \<and>
      distinct (map pt_id (products_types d)))"

section \<open>The storage engine as the driver shows it\<close>

text \<open>
  A pool or a connection is the committed tables, the working copy of the transaction
  that is open (if one is), and the outcome of the statements still to come at the level
  of the driver: \<open>True\<close> means that the next statement fails and changes nothing
  (a lost connection, a cancelled context, a timeout, a value that the type of its column
  refuses), and the empty list that nothing fails any more. The failures the engine
  decides from the tables (a primary key, a foreign key, the uniqueness of a link) are
  computed.
\<close>

datatype pgx_error =
    ErrNoRows
  | ErrTxClosed
  | ErrDriver
  | ErrScanNull
  | ErrUniqueViolation
  | ErrForeignKeyViolation

record pg =
  store :: db
  txn :: "db option"
  faults :: "bool list"

definition next_fault :: "pg \<Rightarrow> bool \<times> pg" where
  "next_fault c =
     (case faults c of
        [] \<Rightarrow> (False, c)
      | f # fs \<Rightarrow> (f, c\<lparr>faults := fs\<rparr>))"

text \<open>
  \<^verbatim>\<open>INSERT INTO products (product_name, material_id, type_id, min_price, article)\<close>
  on a copy of the tables. The identifier comes from the sequence, which stays advanced
  when the row is refused.
\<close>

definition insert_product ::
  "db \<Rightarrow> string \<Rightarrow> int \<Rightarrow> int \<Rightarrow> rat \<Rightarrow> string \<Rightarrow> (pgx_error + int) \<times> db" where
  "insert_product d name material type price art =
     (let new_id = products_id_seq d + 1;
          d1 = d\<lparr>products_id_seq := new_id\<rparr>
      in if new_id \<in> set (map p_id (products d)) then (Inl ErrUniqueViolation, d1)
         else if material \<in> set (map m_id (materials d))
                 \<and> type \<in> set (map pt_id (products_types d))
         then (Inr new_id,
               d1\<lparr>products := products d @
                     [\<lparr>p_id = new_id, p_product_name = name, p_material_id = material,
                       p_type_id = type, p_min_price = Some price, p_article = Some art\<rparr>]\<rparr>)
         else (Inl ErrForeignKeyViolation, d1))"

text \<open>
  \<^verbatim>\<open>INSERT INTO products_workshop (product_id, workshop_id, production_time)\<close>, with
  the two foreign keys and \<^verbatim>\<open>UNIQUE (product_id, workshop_id)\<close>.
\<close>

definition insert_products_workshop ::
  "db \<Rightarrow> int \<Rightarrow> int \<Rightarrow> rat \<Rightarrow> (pgx_error + int) \<times> db" where
  "insert_products_workshop d product workshop time =
     (let new_id = products_workshop_id_seq d + 1;
          d1 = d\<lparr>products_workshop_id_seq := new_id\<rparr>
      in if new_id \<in> set (map pw_id (products_workshop d))
            \<or> (product, workshop)
                 \<in> set (map (\<lambda>pw. (pw_product_id pw, pw_workshop_id pw)) (products_workshop d))
         then (Inl ErrUniqueViolation, d1)
         else if product \<in> set (map p_id (products d))
                 \<and> workshop \<in> set (map w_id (workshops d))
         then (Inr new_id,
               d1\<lparr>products_workshop := products_workshop d @
                     [\<lparr>pw_id = new_id, pw_product_id = product, pw_workshop_id = workshop,
                       pw_production_time = Some time\<rparr>]\<rparr>)
         else (Inl ErrForeignKeyViolation, d1))"

text \<open>
  \<^verbatim>\<open>DELETE FROM products WHERE id = $1\<close>: the affected rows are the product rows
  removed; the links of the product go with it (\<^verbatim>\<open>ON DELETE CASCADE\<close>) and are not
  counted.
\<close>

definition delete_product :: "db \<Rightarrow> int \<Rightarrow> nat \<times> db" where
  "delete_product d i =
     (length (filter (\<lambda>p. p_id p = i) (products d)),
      d\<lparr>products := filter (\<lambda>p. p_id p \<noteq> i) (products d),
        products_workshop := filter (\<lambda>pw. pw_product_id pw \<noteq> i) (products_workshop d)\<rparr>)"

text \<open>Statements on the pool run on the committed tables and are committed at once.\<close>

definition pool_insert_product ::
  "pg \<Rightarrow> string \<Rightarrow> int \<Rightarrow> int \<Rightarrow> rat \<Rightarrow> string \<Rightarrow> (pgx_error + int) \<times> pg" where
  "pool_insert_product c name material type price art =
     (let (f, c1) = next_fault c
      in if f then (Inl ErrDriver, c1)
         else (let (r, d) = insert_product (store c1) name material type price art
               in (r, c1\<lparr>store := d\<rparr>)))"

text \<open>
  \<^verbatim>\<open>pool.Exec\<close> of the delete statement: the affected-row count of the command tag
  and the error. When the driver fails the tag is the empty one, whose count is 0.
\<close>

definition pool_Exec_delete :: "pg \<Rightarrow> int \<Rightarrow> (nat \<times> pgx_error option) \<times> pg" where
  "pool_Exec_delete c i =
     (let (f, c1) = next_fault c
      in if f then ((0, Some ErrDriver), c1)
         else (let (n, d) = delete_product (store c1) i
               in ((n, None), c1\<lparr>store := d\<rparr>)))"

text \<open>
  A transaction works on a copy of the committed tables. Commit makes the copy the
  committed tables; rollback, and a commit that fails, drop it: only the sequences keep
  what the transaction drew from them.
\<close>

definition discard :: "db \<Rightarrow> db \<Rightarrow> db" where
  "discard w d =
     d\<lparr>products_id_seq := products_id_seq w,
       products_workshop_id_seq := products_workshop_id_seq w\<rparr>"

definition pool_Begin :: "pg \<Rightarrow> (pgx_error + unit) \<times> pg" where
  "pool_Begin c =
     (let (f, c1) = next_fault c
      in if f then (Inl ErrDriver, c1)
         else (Inr (), c1\<lparr>txn := Some (store c1)\<rparr>))"

definition tx_insert_product ::
  "pg \<Rightarrow> string \<Rightarrow> int \<Rightarrow> int \<Rightarrow> rat \<Rightarrow> string \<Rightarrow> (pgx_error + int) \<times> pg" where
  "tx_insert_product c name material type price art =
     (case txn c of
        None \<Rightarrow> (Inl ErrTxClosed, c)
      | Some w \<Rightarrow>
          (let (f, c1) = next_fault c
           in if f then (Inl ErrDriver, c1)
              else (let (r, w1) = insert_product w name material type price art
                    in (r, c1\<lparr>txn := Some w1\<rparr>))))"

definition tx_insert_products_workshop ::
  "pg \<Rightarrow> int \<Rightarrow> int \<Rightarrow> rat \<Rightarrow> (pgx_error + int) \<times> pg" where
  "tx_insert_products_workshop c product workshop time =
     (case txn c of
        None \<Rightarrow> (Inl ErrTxClosed, c)
      | Some w \<Rightarrow>
          (let (f, c1) = next_fault c
           in if f then (Inl ErrDriver, c1)
              else (let (r, w1) = insert_products_workshop w product workshop time
                    in (r, c1\<lparr>txn := Some w1\<rparr>))))"

definition tx_Commit :: "pg \<Rightarrow> (pgx_error + unit) \<times> pg" where
  "tx_Commit c =
     (case txn c of
        None \<Rightarrow> (Inl ErrTxClosed, c)
      | Some w \<Rightarrow>
          (let (f, c1) = next_fault c
           in if f then (Inl ErrDriver, c1\<lparr>store := discard w (store c1), txn := None\<rparr>)
              else (Inr (), c1\<lparr>store := w, txn := None\<rparr>)))"

definition tx_Rollback :: "pg \<Rightarrow> (pgx_error + unit) \<times> pg" where
  "tx_Rollback c =
     (case txn c of
        None \<Rightarrow> (Inl ErrTxClosed, c)
      | Some w \<Rightarrow> (Inr (), c\<lparr>store := discard w (store c), txn := None\<rparr>))"

section \<open>The repository layer\<close>

text \<open>
  The Go structs. A float64 is idealised as a rational, an \<^verbatim>\<open>int\<close> as an integer.
\<close>

record ProductWithTime =
  ID :: int
  ProductName :: string
  MaterialName :: string
  TypeName :: string
  MinPrice :: rat
  Article :: string
  TotalProductionTime :: rat

record CreateProductInput =
  cp_ProductName :: string
  cp_MaterialID :: int
  cp_TypeID :: int
  cp_MinPrice :: rat
  cp_Article :: string

record WorkshopInput =
  WorkshopID :: int
  ProductionTime :: rat

record CreateProductWithWorkshopsInput =
  cpw_ProductName :: string
  cpw_MaterialID :: int
  cpw_TypeID :: int
  cpw_MinPrice :: rat
  cpw_Article :: string
  cpw_Workshops :: "WorkshopInput list"

text \<open>
  The errors the repository functions build. The source wraps the cause in a message
  in Russian; the constructor stands for the message and carries the cause (and, for a
  link, the workshop the message names).
\<close>

datatype RepoError =
    ErrBeginTx pgx_error
  | ErrCreateProduct pgx_error
  | ErrAddWorkshop int pgx_error
  | ErrCommitTx pgx_error
  | ErrNothingDeleted
  | ErrDelete

subsection \<open>The aggregated read\<close>

text \<open>
  The \<^verbatim>\<open>FROM\<close> clause: products joined to their material and their type, then
  left-joined to the links, a product without links keeping one row whose link columns
  are \<^verbatim>\<open>NULL\<close>.
\<close>

type_synonym joined_row =
  "products_row \<times> materials_row \<times> products_types_row \<times> products_workshop_row option"

definition left_join_workshop :: "db \<Rightarrow> products_row \<Rightarrow> products_workshop_row option list" where
  "left_join_workshop d p =
     (case filter (\<lambda>pw. pw_product_id pw = p_id p) (products_workshop d) of
        [] \<Rightarrow> [None]
      | pws \<Rightarrow> map Some pws)"

definition product_rows :: "db \<Rightarrow> products_row \<Rightarrow> joined_row list" where
  "product_rows d p =
     concat (map (\<lambda>m. concat (map (\<lambda>pt. map (\<lambda>pw. (p, m, pt, pw)) (left_join_workshop d p))
                                  (filter (\<lambda>pt. p_type_id p = pt_id pt) (products_types d))))
                 (filter (\<lambda>m. p_material_id p = m_id m) (materials d)))"

definition joined :: "db \<Rightarrow> joined_row list" where
  "joined d = concat (map (product_rows d) (products d))"

text \<open>
  \<^verbatim>\<open>GROUP BY p.id, p.product_name, m.material_name, pt.type_name, p.min_price, p.article\<close>
  and the select list, whose last column is
  \<^verbatim>\<open>COALESCE(SUM(pw.production_time), 0)\<close>: \<^verbatim>\<open>SUM\<close> skips \<^verbatim>\<open>NULL\<close> and is
  \<^verbatim>\<open>NULL\<close> when nothing is left.
\<close>

type_synonym group_key = "int \<times> string \<times> string \<times> string \<times> rat option \<times> string option"

definition key_of :: "joined_row \<Rightarrow> group_key" where
  "key_of r =
     (case r of (p, m, pt, pw) \<Rightarrow>
        (p_id p, p_product_name p, m_material_name m, pt_type_name pt, p_min_price p, p_article p))"

definition time_of :: "joined_row \<Rightarrow> rat option" where
  "time_of r = (case r of (p, m, pt, pw) \<Rightarrow> Option.bind pw pw_production_time)"

definition sql_SUM :: "rat option list \<Rightarrow> rat option" where
  "sql_SUM vs =
     (case List.map_filter id vs of
        [] \<Rightarrow> None
      | x # xs \<Rightarrow> Some (sum_list (x # xs)))"

definition sql_COALESCE :: "rat option \<Rightarrow> rat \<Rightarrow> rat" where
  "sql_COALESCE v d = (case v of None \<Rightarrow> d | Some x \<Rightarrow> x)"

definition group_by_product :: "joined_row list \<Rightarrow> (group_key \<times> rat) list" where
  "group_by_product rows =
     map (\<lambda>k. (k, sql_COALESCE (sql_SUM (map time_of (filter (\<lambda>r. key_of r = k) rows))) 0))
         (remdups (map key_of rows))"

text \<open>The list query ends in \<^verbatim>\<open>ORDER BY p.id\<close>; the point lookup filters on
  \<^verbatim>\<open>p.id = $1\<close> before grouping.\<close>

definition all_products_query :: "db \<Rightarrow> (group_key \<times> rat) list" where
  "all_products_query d = sort_key (\<lambda>row. fst (fst row)) (group_by_product (joined d))"

definition product_by_id_query :: "db \<Rightarrow> int \<Rightarrow> (group_key \<times> rat) list" where
  "product_by_id_query d i =
     group_by_product (filter (\<lambda>r. case r of (p, m, pt, pw) \<Rightarrow> p_id p = i) (joined d))"

text \<open>
  \<^verbatim>\<open>Scan\<close> of one result row into the struct: a \<^verbatim>\<open>NULL\<close> in \<^verbatim>\<open>min_price\<close> or in
  \<^verbatim>\<open>article\<close> cannot be stored in a float64 or a string and is an error.
\<close>

definition Scan :: "group_key \<times> rat \<Rightarrow> pgx_error + ProductWithTime" where
  "Scan row =
     (case row of ((i, name, material, type, price, art), total_time) \<Rightarrow>
        (case price of
           None \<Rightarrow> Inl ErrScanNull
         | Some pr \<Rightarrow>
             (case art of
                None \<Rightarrow> Inl ErrScanNull
              | Some a \<Rightarrow>
                  Inr \<lparr>ID = i, ProductName = name, MaterialName = material, TypeName = type,
                       MinPrice = pr, Article = a, TotalProductionTime = total_time\<rparr>)))"

text \<open>The loop over \<^verbatim>\<open>rows.Next()\<close>: the first row that does not scan ends the call.\<close>

fun scan_rows :: "ProductWithTime list \<Rightarrow> (group_key \<times> rat) list \<Rightarrow> pgx_error + ProductWithTime list" where
  "scan_rows ps [] = Inr ps"
| "scan_rows ps (row # rows) =
     (case Scan row of
        Inl err \<Rightarrow> Inl err
      | Inr p \<Rightarrow> scan_rows (ps @ [p]) rows)"

definition GetAllProducts :: "pg \<Rightarrow> (pgx_error + ProductWithTime list) \<times> pg" where
  "GetAllProducts pool =
     (let (f, c1) = next_fault pool
      in if f then (Inl ErrDriver, c1)
         else (scan_rows [] (all_products_query (store c1)), c1))"

text \<open>\<^verbatim>\<open>pool.QueryRow(ctx, query, id).Scan(...)\<close>: no row is \<^verbatim>\<open>pgx.ErrNoRows\<close>.\<close>

definition QueryRow_product :: "pg \<Rightarrow> int \<Rightarrow> (pgx_error + ProductWithTime) \<times> pg" where
  "QueryRow_product pool i =
     (let (f, c1) = next_fault pool
      in if f then (Inl ErrDriver, c1)
         else
           (case product_by_id_query (store c1) i of
              [] \<Rightarrow> (Inl ErrNoRows, c1)
            | row # _ \<Rightarrow> (Scan row, c1)))"

text \<open>The result \<open>Inr None\<close> is the pair \<^verbatim>\<open>nil, nil\<close> of the source.\<close>

definition GetProductByID :: "pg \<Rightarrow> int \<Rightarrow> (pgx_error + ProductWithTime option) \<times> pg" where
  "GetProductByID pool i =
     (case QueryRow_product pool i of
        (Inl err, c1) \<Rightarrow> if err = ErrNoRows then (Inr None, c1) else (Inl err, c1)
      | (Inr p, c1) \<Rightarrow> (Inr (Some p), c1))"

subsection \<open>The write path\<close>

definition CreateProduct :: "pg \<Rightarrow> CreateProductInput \<Rightarrow> (pgx_error + int) \<times> pg" where
  "CreateProduct pool input =
     pool_insert_product pool (cp_ProductName input) (cp_MaterialID input) (cp_TypeID input)
       (cp_MinPrice input) (cp_Article input)"

text \<open>The loop over \<^verbatim>\<open>input.Workshops\<close>: the first insert that fails ends it.\<close>

fun insert_workshops :: "pg \<Rightarrow> int \<Rightarrow> WorkshopInput list \<Rightarrow> RepoError option \<times> pg" where
  "insert_workshops tx productID [] = (None, tx)"
| "insert_workshops tx productID (workshop # rest) =
     (case tx_insert_products_workshop tx productID (WorkshopID workshop) (ProductionTime workshop) of
        (Inl err, tx1) \<Rightarrow> (Some (ErrAddWorkshop (WorkshopID workshop) err), tx1)
      | (Inr _, tx1) \<Rightarrow> insert_workshops tx1 productID rest)"

text \<open>
  \<open>CreateProductWithWorkshops_body\<close> is the function from the first insert on;
  \<open>CreateProductWithWorkshops\<close> opens the transaction and, as the deferred
  \<^verbatim>\<open>tx.Rollback\<close> does, rolls back on the way out of every path on which the
  transaction was opened (a no-op once it is committed).
\<close>

definition CreateProductWithWorkshops_body ::
  "pg \<Rightarrow> CreateProductWithWorkshopsInput \<Rightarrow> (RepoError + int) \<times> pg" where
  "CreateProductWithWorkshops_body tx input =
     (case tx_insert_product tx (cpw_ProductName input) (cpw_MaterialID input)
             (cpw_TypeID input) (cpw_MinPrice input) (cpw_Article input) of
        (Inl err, tx1) \<Rightarrow> (Inl (ErrCreateProduct err), tx1)
      | (Inr productID, tx1) \<Rightarrow>
          (case (if length (cpw_Workshops input) > 0
                 then insert_workshops tx1 productID (cpw_Workshops input)
                 else (None, tx1)) of
             (Some err, tx2) \<Rightarrow> (Inl err, tx2)
           | (None, tx2) \<Rightarrow>
               (case tx_Commit tx2 of
                  (Inl err, tx3) \<Rightarrow> (Inl (ErrCommitTx err), tx3)
                | (Inr _, tx3) \<Rightarrow> (Inr productID, tx3))))"

definition CreateProductWithWorkshops ::
  "pg \<Rightarrow> CreateProductWithWorkshopsInput \<Rightarrow> (RepoError + int) \<times> pg" where
  "CreateProductWithWorkshops pool input =
     (case pool_Begin pool of
        (Inl err, c1) \<Rightarrow> (Inl (ErrBeginTx err), c1)
      | (Inr _, tx) \<Rightarrow>
          (let (result, tx1) = CreateProductWithWorkshops_body tx input
           in (result, snd (tx_Rollback tx1))))"

subsection \<open>Deletion\<close>

text \<open>The affected-row count is looked at first, the error of the same call second.\<close>

definition DeleteById :: "pg \<Rightarrow> int \<Rightarrow> RepoError option \<times> pg" where
  "DeleteById pool product_id =
     (case pool_Exec_delete pool product_id of
        ((rows_affected, err), c1) \<Rightarrow>
          if rows_affected = 0 then (Some ErrNothingDeleted, c1)
          else if err \<noteq> None then (Some ErrDelete, c1)
          else (None, c1))"

section \<open>The HTTP layer\<close>

text \<open>
  What a handler writes with \<^verbatim>\<open>c.JSON\<close>: a status and a body. The texts of the
  messages are in Russian in the source; a constructor stands for each. A handler returns
  the responses it wrote, in order, so that a path that writes twice shows.
\<close>

datatype Message =
    MsgListFailed
  | MsgBadProductID
  | MsgGetFailed
  | MsgProductNotFound
  | MsgInvalidData
  | MsgCreateFailed
  | MsgCreatedButNotRead
  | MsgCreateWithWorkshopsFailed RepoError
  | MsgBadId
  | MsgDeleteBroke
  | MsgDeleted

datatype Body =
    ErrorBody Message
  | MessageBody Message
  | ProductBody "ProductWithTime option"
  | ProductsBody "ProductWithTime list" nat

record response =
  status :: nat
  body :: Body

abbreviation StatusOK :: nat where "StatusOK \<equiv> 200"
abbreviation StatusCreated :: nat where "StatusCreated \<equiv> 201"
abbreviation StatusBadRequest :: nat where "StatusBadRequest \<equiv> 400"
abbreviation StatusNotFound :: nat where "StatusNotFound \<equiv> 404"
abbreviation StatusInternalServerError :: nat where "StatusInternalServerError \<equiv> 500"
abbreviation StatusBadGateway :: nat where "StatusBadGateway \<equiv> 502"

definition JSON :: "nat \<Rightarrow> Body \<Rightarrow> response" where
  "JSON code obj = \<lparr>status = code, body = obj\<rparr>"

text \<open>
  \<^verbatim>\<open>fmt.Sscanf(id, "%d", &n)\<close> belongs to the Go library: a handler is modelled for
  any scanner \<open>scan\<close>, \<open>None\<close> being its error. \<open>Sscanf_d\<close> is an instance for
  evaluation, for an \<^verbatim>\<open>int\<close> of 64 bits: the leading white-space runes are skipped, a
  newline among them being an error; then come an optional sign and at least one digit,
  whose value must fit the integer; whatever follows is left unread.
\<close>

definition Sscanf_d :: "string \<Rightarrow> int option" where
  "Sscanf_d s =
     (let (neg, rest) =
            split_sign (trim_leading (filter (\<lambda>e. e \<noteq> [CHR 0x0A]) space_encodings) s);
          ds = takeWhile is_digit rest;
          v = (if neg then - digits_value ds else digits_value ds)
      in if ds = [] then None
         else if v < - 9223372036854775808 \<or> 9223372036854775807 < v then None
         else Some v)"

definition GetProductsHandler :: "pg \<Rightarrow> response list \<times> pg" where
  "GetProductsHandler pool =
     (case GetAllProducts pool of
        (Inl err, c1) \<Rightarrow> ([JSON StatusInternalServerError (ErrorBody MsgListFailed)], c1)
      | (Inr ps, c1) \<Rightarrow> ([JSON StatusOK (ProductsBody ps (length ps))], c1))"

definition GetProductByIDHandler :: "(string \<Rightarrow> int option) \<Rightarrow> pg \<Rightarrow> string \<Rightarrow> response list \<times> pg" where
  "GetProductByIDHandler scan pool id_param =
     (case scan id_param of
        None \<Rightarrow> ([JSON StatusBadRequest (ErrorBody MsgBadProductID)], pool)
      | Some productID \<Rightarrow>
          (case GetProductByID pool productID of
             (Inl err, c1) \<Rightarrow> ([JSON StatusInternalServerError (ErrorBody MsgGetFailed)], c1)
           | (Inr None, c1) \<Rightarrow> ([JSON StatusNotFound (ErrorBody MsgProductNotFound)], c1)
           | (Inr (Some product), c1) \<Rightarrow> ([JSON StatusOK (ProductBody (Some product))], c1)))"

text \<open>
  The two creation handlers get the outcome of \<^verbatim>\<open>c.ShouldBindJSON\<close>: \<open>None\<close> when
  the body is refused. The product read back may be \<^verbatim>\<open>nil\<close>, and is sent as it is.
\<close>

definition CreateProductHandler :: "pg \<Rightarrow> CreateProductInput option \<Rightarrow> response list \<times> pg" where
  "CreateProductHandler pool bound =
     (case bound of
        None \<Rightarrow> ([JSON StatusBadRequest (ErrorBody MsgInvalidData)], pool)
      | Some input \<Rightarrow>
          (case CreateProduct pool input of
             (Inl err, c1) \<Rightarrow> ([JSON StatusInternalServerError (ErrorBody MsgCreateFailed)], c1)
           | (Inr productID, c1) \<Rightarrow>
               (case GetProductByID c1 productID of
                  (Inl err, c2) \<Rightarrow>
                    ([JSON StatusInternalServerError (ErrorBody MsgCreatedButNotRead)], c2)
                | (Inr product, c2) \<Rightarrow> ([JSON StatusCreated (ProductBody product)], c2))))"

definition CreateProductWithWorkshopsHandler ::
  "pg \<Rightarrow> CreateProductWithWorkshopsInput option \<Rightarrow> response list \<times> pg" where
  "CreateProductWithWorkshopsHandler pool bound =
     (case bound of
        None \<Rightarrow> ([JSON StatusBadRequest (ErrorBody MsgInvalidData)], pool)
      | Some input \<Rightarrow>
          (case CreateProductWithWorkshops pool input of
             (Inl err, c1) \<Rightarrow>
               ([JSON StatusInternalServerError (ErrorBody (MsgCreateWithWorkshopsFailed err))], c1)
           | (Inr productID, c1) \<Rightarrow>
               (case GetProductByID c1 productID of
                  (Inl err, c2) \<Rightarrow>
                    ([JSON StatusInternalServerError (ErrorBody MsgCreatedButNotRead)], c2)
                | (Inr product, c2) \<Rightarrow> ([JSON StatusCreated (ProductBody product)], c2))))"

text \<open>The delete handler of \<^verbatim>\<open>main.go\<close>: every branch that writes an error returns.\<close>

definition Server_DeleteById :: "(string \<Rightarrow> int option) \<Rightarrow> pg \<Rightarrow> string \<Rightarrow> response list \<times> pg" where
  "Server_DeleteById scan pool id_param =
     (case scan id_param of
        None \<Rightarrow> ([JSON StatusBadRequest (ErrorBody MsgBadId)], pool)
      | Some product_id \<Rightarrow>
          (case DeleteById pool product_id of
             (Some err, c1) \<Rightarrow> ([JSON StatusBadGateway (ErrorBody MsgDeleteBroke)], c1)
           | (None, c1) \<Rightarrow> ([JSON StatusOK (MessageBody MsgDeleted)], c1)))"

text \<open>
  The delete handler of the second copy of the server (\<^verbatim>\<open>part_001\<close>): the branch of
  the failed delete has no \<^verbatim>\<open>return\<close>, so the success message is written after the
  error.
\<close>

definition Server_DeleteById_part_001 ::
  "(string \<Rightarrow> int option) \<Rightarrow> pg \<Rightarrow> string \<Rightarrow> response list \<times> pg" where
  "Server_DeleteById_part_001 scan pool id_param =
     (case scan id_param of
        None \<Rightarrow> ([JSON StatusBadRequest (ErrorBody MsgBadId)], pool)
      | Some product_id \<Rightarrow>
          (case DeleteById pool product_id of
             (Some err, c1) \<Rightarrow>
               ([JSON StatusBadGateway (ErrorBody MsgDeleteBroke)]
                  @ [JSON StatusOK (MessageBody MsgDeleted)], c1)
           | (None, c1) \<Rightarrow> ([JSON StatusOK (MessageBody MsgDeleted)], c1)))"

subsection \<open>The routes\<close>

text \<open>
  The routes \<^verbatim>\<open>main\<close> registers, a path being its segments. A segment that starts
  with a colon is a parameter and matches any segment that is not empty; the router
  gives the handler of the route that matches and the parameters it bound. No two routes
  of one method overlap here, so the order of the table does not matter.
\<close>

datatype Method = GET | POST | DELETE

datatype Handler =
    H_GetProductsHandler
  | H_GetProductByIDHandler
  | H_CreateProductHandler
  | H_CreateProductWithWorkshopsHandler
  | H_DeleteById
  | H_ProductsListHandler
  | H_ProductsNewHandler
  | H_ProductsCreateHandler
  | H_ProductsDeleteHandler

type_synonym route = "Method \<times> string list \<times> Handler"

definition routes :: "route list" where
  "routes =
     [(GET, [''api'', ''products''], H_GetProductsHandler),
      (GET, [''api'', ''products'', '':id''], H_GetProductByIDHandler),
      (POST, [''api'', ''products''], H_CreateProductHandler),
      (POST, [''api'', ''products'', ''with-workshops''], H_CreateProductWithWorkshopsHandler),
      (DELETE, [''api'', ''products'', '':id''], H_DeleteById),
      (GET, [], H_ProductsListHandler),
      (GET, [''products'', ''new''], H_ProductsNewHandler),
      (POST, [''products'', ''create''], H_ProductsCreateHandler),
      (POST, [''products'', '':id'', ''delete''], H_ProductsDeleteHandler)]"

definition routes_part_001 :: "route list" where
  "routes_part_001 =
     [(GET, [''api'', ''products''], H_GetProductsHandler),
      (GET, [''api'', ''products'', '':id''], H_GetProductByIDHandler),
      (POST, [''api'', ''products''], H_CreateProductHandler),
      (POST, [''api'', ''products'', ''with-workshops''], H_CreateProductWithWorkshopsHandler),
      (DELETE, [''api'', ''products''], H_DeleteById)]"

fun match_path :: "string list \<Rightarrow> string list \<Rightarrow> (string \<times> string) list option" where
  "match_path [] [] = Some []"
| "match_path (pat # pats) (seg # segs) =
     (case pat of
        [] \<Rightarrow> (if seg = [] then match_path pats segs else None)
      | c # name \<Rightarrow>
          if c = CHR '':'' then
            (if seg = [] then None
             else map_option (\<lambda>ps. (name, seg) # ps) (match_path pats segs))
          else if pat = seg then match_path pats segs
          else None)"
| "match_path _ _ = None"

fun dispatch :: "route list \<Rightarrow> Method \<Rightarrow> string list \<Rightarrow> (Handler \<times> (string \<times> string) list) option" where
  "dispatch [] m path = None"
| "dispatch ((m', pat, h) # rs) m path =
     (if m' = m then
        (case match_path pat path of
           Some ps \<Rightarrow> Some (h, ps)
         | None \<Rightarrow> dispatch rs m path)
      else dispatch rs m path)"

text \<open>\<^verbatim>\<open>c.Param(key)\<close>: the empty string when the route bound no such parameter.\<close>

definition Param :: "(string \<times> string) list \<Rightarrow> string \<Rightarrow> string" where
  "Param ps key = (case map_of ps key of None \<Rightarrow> [] | Some v \<Rightarrow> v)"

text \<open>
  A \<^verbatim>\<open>DELETE\<close> request through the router, for each copy of the server. A path
  without a route gets the router's own 404, and no handler runs: \<open>None\<close>.
\<close>

definition serve_DELETE ::
  "(string \<Rightarrow> int option) \<Rightarrow> pg \<Rightarrow> string list \<Rightarrow> (response list \<times> pg) option" where
  "serve_DELETE scan pool path =
     (case dispatch routes DELETE path of
        None \<Rightarrow> None
      | Some (h, ps) \<Rightarrow> Some (Server_DeleteById scan pool (Param ps ''id'')))"

definition serve_DELETE_part_001 ::
  "(string \<Rightarrow> int option) \<Rightarrow> pg \<Rightarrow> string list \<Rightarrow> (response list \<times> pg) option" where
  "serve_DELETE_part_001 scan pool path =
     (case dispatch routes_part_001 DELETE path of
        None \<Rightarrow> None
      | Some (h, ps) \<Rightarrow> Some (Server_DeleteById_part_001 scan pool (Param ps ''id'')))"

section \<open>The importer\<close>

datatype ImportError =
    ErrTooFewColumns
  | ErrInvalidNumber NumError
  | ErrMaterialNotFound string
  | ErrMaterialLookup pgx_error
  | ErrTypeNotFound string
  | ErrTypeLookup pgx_error
  | ErrInsert pgx_error

text \<open>
  \<^verbatim>\<open>parseDecimal\<close>: trim, turn every comma into a point, remove every space; the
  empty string is the number 0, anything else goes to the parser.
\<close>

definition parseDecimal :: "(string \<Rightarrow> NumError + rat) \<Rightarrow> string \<Rightarrow> ImportError + rat" where
  "parseDecimal pf s =
     (let s1 = TrimSpace s;
          s2 = ReplaceAll s1 (CHR '','') ''.'';
          s3 = ReplaceAll s2 (CHR '' '') ''''
      in if s3 = '''' then Inr 0
         else
           (case pf s3 of
              Inl err \<Rightarrow> Inl (ErrInvalidNumber err)
            | Inr v \<Rightarrow> Inr v))"

text \<open>
  The \<^verbatim>\<open>LOWER\<close> of the engine folds by the locale of the database, which is not
  part of the repository: the importer is modelled for any folding \<open>LOWER\<close>.
  \<open>lower_utf8\<close> is an instance for evaluation, the folding of a UTF-8 database on the
  capitals of ASCII (\<open>lower_byte\<close>) and on the Cyrillic capitals U+0400 to U+042F, whose
  first byte in UTF-8 is D0; every other character is left as it is.
\<close>

definition lower_byte :: "char \<Rightarrow> char" where
  "lower_byte c =
     (if 65 \<le> (of_char c :: int) \<and> (of_char c :: int) \<le> 90
      then char_of ((of_char c :: int) + 32) else c)"

fun lower_utf8 :: "string \<Rightarrow> string" where
  "lower_utf8 [] = []"
| "lower_utf8 [c] = [lower_byte c]"
| "lower_utf8 (c # d # cs) =
     (if c = CHR 0xD0 \<and> 0x90 \<le> (of_char d :: int) \<and> (of_char d :: int) \<le> 0x9F
      then CHR 0xD0 # char_of ((of_char d :: int) + 0x20) # lower_utf8 cs
      else if c = CHR 0xD0 \<and> 0xA0 \<le> (of_char d :: int) \<and> (of_char d :: int) \<le> 0xAF
      then CHR 0xD1 # char_of ((of_char d :: int) - 0x20) # lower_utf8 cs
      else if c = CHR 0xD0 \<and> 0x80 \<le> (of_char d :: int) \<and> (of_char d :: int) \<le> 0x8F
      then CHR 0xD1 # char_of ((of_char d :: int) + 0x10) # lower_utf8 cs
      else lower_byte c # lower_utf8 (d # cs))"

text \<open>
  \<^verbatim>\<open>SELECT id FROM materials WHERE LOWER(material_name) = LOWER($1)\<close> through
  \<^verbatim>\<open>QueryRow\<close> and \<^verbatim>\<open>Scan\<close>: the first row, or \<^verbatim>\<open>pgx.ErrNoRows\<close>.
\<close>

definition select_material_id ::
  "(string \<Rightarrow> string) \<Rightarrow> pg \<Rightarrow> string \<Rightarrow> (pgx_error + int) \<times> pg" where
  "select_material_id LOWER conn name =
     (let (f, c1) = next_fault conn
      in if f then (Inl ErrDriver, c1)
         else
           (case filter (\<lambda>m. LOWER (m_material_name m) = LOWER name) (materials (store c1)) of
              [] \<Rightarrow> (Inl ErrNoRows, c1)
            | m # _ \<Rightarrow> (Inr (m_id m), c1)))"

definition getMaterialID ::
  "(string \<Rightarrow> string) \<Rightarrow> pg \<Rightarrow> string \<Rightarrow> (ImportError + int) \<times> pg" where
  "getMaterialID LOWER conn materialName =
     (case select_material_id LOWER conn materialName of
        (Inl err, c1) \<Rightarrow>
          if err = ErrNoRows then (Inl (ErrMaterialNotFound materialName), c1)
          else (Inl (ErrMaterialLookup err), c1)
      | (Inr i, c1) \<Rightarrow> (Inr i, c1))"

definition select_type_id ::
  "(string \<Rightarrow> string) \<Rightarrow> pg \<Rightarrow> string \<Rightarrow> (pgx_error + int) \<times> pg" where
  "select_type_id LOWER conn name =
     (let (f, c1) = next_fault conn
      in if f then (Inl ErrDriver, c1)
         else
           (case filter (\<lambda>pt. LOWER (pt_type_name pt) = LOWER name) (products_types (store c1)) of
              [] \<Rightarrow> (Inl ErrNoRows, c1)
            | pt # _ \<Rightarrow> (Inr (pt_id pt), c1)))"

definition getTypeID ::
  "(string \<Rightarrow> string) \<Rightarrow> pg \<Rightarrow> string \<Rightarrow> (ImportError + int) \<times> pg" where
  "getTypeID LOWER conn typeName =
     (case select_type_id LOWER conn typeName of
        (Inl err, c1) \<Rightarrow>
          if err = ErrNoRows then (Inl (ErrTypeNotFound typeName), c1)
          else (Inl (ErrTypeLookup err), c1)
      | (Inr i, c1) \<Rightarrow> (Inr i, c1))"

text \<open>
  The state of the run: the connection, the two counters, and the lines written with
  \<^verbatim>\<open>log.Printf\<close>, each the number of the spreadsheet line and what went wrong.
\<close>

record import_state =
  conn :: pg
  successCount :: nat
  errorCount :: nat
  logged :: "(nat \<times> ImportError) list"

definition row_error :: "import_state \<Rightarrow> pg \<Rightarrow> nat \<Rightarrow> ImportError \<Rightarrow> import_state" where
  "row_error st c i err =
     st\<lparr>conn := c, errorCount := errorCount st + 1, logged := logged st @ [(i + 1, err)]\<rparr>"

text \<open>The body of the loop for a row that is not the header.\<close>

definition process_row ::
  "(string \<Rightarrow> NumError + rat) \<Rightarrow> (string \<Rightarrow> string) \<Rightarrow> nat \<Rightarrow> string list
     \<Rightarrow> import_state \<Rightarrow> import_state" where
  "process_row pf LOWER i row st =
     (if length row < 5 then row_error st (conn st) i ErrTooFewColumns
      else
        (let productName = TrimSpace (row ! 1);
             materialName = TrimSpace (row ! 4);
             art = TrimSpace (row ! 2);
             typeName = TrimSpace (row ! 0)
         in case parseDecimal pf (row ! 3) of
              Inl err \<Rightarrow> row_error st (conn st) i err
            | Inr minPrice \<Rightarrow>
                (case getMaterialID LOWER (conn st) materialName of
                   (Inl err, c1) \<Rightarrow> row_error st c1 i err
                 | (Inr materialID, c1) \<Rightarrow>
                     (case getTypeID LOWER c1 typeName of
                        (Inl err, c2) \<Rightarrow> row_error st c2 i err
                      | (Inr typeID, c2) \<Rightarrow>
                          (case pool_insert_product c2 productName materialID typeID minPrice art of
                             (Inl err, c3) \<Rightarrow> row_error st c3 i (ErrInsert err)
                           | (Inr _, c3) \<Rightarrow>
                               st\<lparr>conn := c3, successCount := successCount st + 1\<rparr>)))))"

text \<open>The loop over the rows with their index: the row of index 0 is the header.\<close>

fun import_rows ::
  "(string \<Rightarrow> NumError + rat) \<Rightarrow> (string \<Rightarrow> string) \<Rightarrow> nat \<Rightarrow> string list list
     \<Rightarrow> import_state \<Rightarrow> import_state" where
  "import_rows pf LOWER i [] st = st"
| "import_rows pf LOWER i (row # rest) st =
     import_rows pf LOWER (i + 1) rest (if i = 0 then st else process_row pf LOWER i row st)"

text \<open>
  \<^verbatim>\<open>main\<close>: the connection that \<^verbatim>\<open>pgx.Connect\<close> gives, the workbook that
  \<^verbatim>\<open>excelize.OpenFile\<close> gives and the rows of its first sheet, each \<open>None\<close> when the
  call fails, which ends the run with \<^verbatim>\<open>log.Fatalf\<close>. The run that reaches the loop
  prints the two counters of its last state.
\<close>

datatype FatalError = FatalConnect | FatalOpenFile | FatalGetRows

definition main ::
  "(string \<Rightarrow> NumError + rat) \<Rightarrow> (string \<Rightarrow> string) \<Rightarrow> pg option
     \<Rightarrow> string list list option option \<Rightarrow> FatalError + import_state" where
  "main pf LOWER connection workbook =
     (case connection of
        None \<Rightarrow> Inl FatalConnect
      | Some c \<Rightarrow>
          (case workbook of
             None \<Rightarrow> Inl FatalOpenFile
           | Some got \<Rightarrow>
               (case got of
                  None \<Rightarrow> Inl FatalGetRows
                | Some rows \<Rightarrow>
                    Inr (import_rows pf LOWER 0 rows
                           \<lparr>conn = c, successCount = 0, errorCount = 0, logged = []\<rparr>))))"

definition printed :: "import_state \<Rightarrow> nat \<times> nat" where
  "printed st = (successCount st, errorCount st)"

section \<open>A small database for the concrete checks\<close>

definition example_db :: db where
  "example_db =
     \<lparr>materials =
        [\<lparr>m_id = 1, m_material_name = ''Wood'', m_wasting_percentage = None\<rparr>,
         \<lparr>m_id = 2, m_material_name = ''Steel'', m_wasting_percentage = Some 1.5\<rparr>],
      products_types = [\<lparr>pt_id = 1, pt_type_name = ''Chair'', pt_type_ratio = None\<rparr>],
      workshops =
        [\<lparr>w_id = 1, w_name = ''Assembly'', w_type = None\<rparr>,
         \<lparr>w_id = 2, w_name = ''Paint'', w_type = None\<rparr>],
      products = [], products_workshop = [],
      products_id_seq = 0, products_workshop_id_seq = 0\<rparr>"

definition example_pool :: "bool list \<Rightarrow> pg" where
  "example_pool fs = \<lparr>store = example_db, txn = None, faults = fs\<rparr>"

definition example_input :: CreateProductWithWorkshopsInput where
  "example_input =
     \<lparr>cpw_ProductName = ''Widget'', cpw_MaterialID = 1, cpw_TypeID = 1, cpw_MinPrice = 9.99,
      cpw_Article = ''W-1'',
      cpw_Workshops = [\<lparr>WorkshopID = 1, ProductionTime = 2.5\<rparr>,
                       \<lparr>WorkshopID = 2, ProductionTime = 3.5\<rparr>]\<rparr>"

text \<open>The body of the scenario of the specification: the same workshop twice.\<close>

definition duplicate_input :: CreateProductWithWorkshopsInput where
  "duplicate_input =
     \<lparr>cpw_ProductName = ''Widget'', cpw_MaterialID = 1, cpw_TypeID = 1, cpw_MinPrice = 9.99,
      cpw_Article = ''W-1'',
      cpw_Workshops = [\<lparr>WorkshopID = 1, ProductionTime = 2\<rparr>,
                       \<lparr>WorkshopID = 1, ProductionTime = 3\<rparr>]\<rparr>"

text \<open>A product whose price is \<^verbatim>\<open>NULL\<close>, which the schema allows.\<close>

definition null_price_db :: db where
  "null_price_db =
     example_db\<lparr>products :=
       [\<lparr>p_id = 1, p_product_name = ''Stool'', p_material_id = 1, p_type_id = 1,
         p_min_price = None, p_article = Some ''A2''\<rparr>]\<rparr>"

definition example_product :: CreateProductInput where
  "example_product =
     \<lparr>cp_ProductName = ''Widget'', cp_MaterialID = 1, cp_TypeID = 1, cp_MinPrice = 9.99,
      cp_Article = ''W-1''\<rparr>"

text \<open>
  The twenty-five white-space runes of Unicode one after the other, byte by byte:
  U+0009 to U+000D, U+0020, U+0085, U+00A0, U+1680, U+2000 to U+200A, U+2028, U+2029,
  U+202F, U+205F, U+3000.
\<close>

definition every_space_rune :: string where
  "every_space_rune =
     [CHR 0x09, CHR 0x0A, CHR 0x0B, CHR 0x0C, CHR 0x0D, CHR 0x20,
      CHR 0xC2, CHR 0x85, CHR 0xC2, CHR 0xA0, CHR 0xE1, CHR 0x9A, CHR 0x80,
      CHR 0xE2, CHR 0x80, CHR 0x80, CHR 0xE2, CHR 0x80, CHR 0x81, CHR 0xE2, CHR 0x80, CHR 0x82,
      CHR 0xE2, CHR 0x80, CHR 0x83, CHR 0xE2, CHR 0x80, CHR 0x84, CHR 0xE2, CHR 0x80, CHR 0x85,
      CHR 0xE2, CHR 0x80, CHR 0x86, CHR 0xE2, CHR 0x80, CHR 0x87, CHR 0xE2, CHR 0x80, CHR 0x88,
      CHR 0xE2, CHR 0x80, CHR 0x89, CHR 0xE2, CHR 0x80, CHR 0x8A, CHR 0xE2, CHR 0x80, CHR 0xA8,
      CHR 0xE2, CHR 0x80, CHR 0xA9, CHR 0xE2, CHR 0x80, CHR 0xAF, CHR 0xE2, CHR 0x81, CHR 0x9F,
      CHR 0xE3, CHR 0x80, CHR 0x80]"







section \<open>Columns of a link, for the statements about the write path\<close>

text \<open>The columns of a link row the code supplies, and what a workshop pair makes them.\<close>

definition link_columns :: "products_workshop_row \<Rightarrow> int \<times> int \<times> rat option" where
  "link_columns pw = (pw_product_id pw, pw_workshop_id pw, pw_production_time pw)"

definition link_of :: "int \<Rightarrow> WorkshopInput \<Rightarrow> int \<times> int \<times> rat option" where
  "link_of productID w = (productID, WorkshopID w, Some (ProductionTime w))"

section \<open>Notions the statements about the importer use\<close>



text \<open>
  The two ways a row can leave the state of the run: counted as one error, with one line
  logged and no product added; or counted as one success, with one product added.
\<close>

definition counted_error :: "nat \<Rightarrow> import_state \<Rightarrow> import_state \<Rightarrow> bool" where
  "counted_error i st st' =
     (successCount st' = successCount st \<and> errorCount st' = errorCount st + 1 \<and>
      logged st' \<noteq> [] \<and> butlast (logged st') = logged st \<and>
      fst (last (logged st')) = i + 1 \<and>
      products (store (conn st')) = products (store (conn st)))"

definition counted_success :: "import_state \<Rightarrow> import_state \<Rightarrow> bool" where
  "counted_success st st' =
     (successCount st' = successCount st + 1 \<and> errorCount st' = errorCount st \<and>
      logged st' = logged st \<and>
      length (products (store (conn st'))) = length (products (store (conn st))) + 1)"

definition example_rows :: "string list list" where
  "example_rows =
     [[''type'', ''name'', ''article'', ''price'', ''material''],
      [''chair'', ''Oak chair'', ''A1'', ''12,50'', '' wood ''],
      [''Chair'', ''Stool'', ''A2'', '''', ''STEEL''],
      [''a'', ''b'', ''c'', ''d''],
      [''Chair'', ''Bench'', ''A3'', ''1.2.3'', ''Wood''],
      [''Table'', ''Desk'', ''A4'', ''1'', ''Wood''],
      [''Chair'', ''Seat'', ''A5'', ''1'', ''Plastic'']]"

definition blank_price_row :: "string list" where
  "blank_price_row = [''Chair'', ''Stool'', ''A2'', '' '', ''STEEL'']"

definition start_state :: "pg \<Rightarrow> import_state" where
  "start_state c = \<lparr>conn = c, successCount = 0, errorCount = 0, logged = []\<rparr>"

section \<open>Notions the statements about the aggregated read use\<close>

text \<open>
  The production times of the links of a product: the values of \<^verbatim>\<open>production_time\<close>
  in the link rows whose \<^verbatim>\<open>product_id\<close> is the product's, a \<^verbatim>\<open>NULL\<close> not being a
  value.
\<close>

definition link_times :: "db \<Rightarrow> int \<Rightarrow> rat list" where
  "link_times d i =
     List.map_filter pw_production_time
       (filter (\<lambda>pw. pw_product_id pw = i) (products_workshop d))"

text \<open>A database with two products: one with links of 2.5 and 3.5, one with none.\<close>

definition stocked_db :: db where
  "stocked_db =
     example_db\<lparr>products :=
       [\<lparr>p_id = 1, p_product_name = ''Widget'', p_material_id = 1, p_type_id = 1,
         p_min_price = Some 9.99, p_article = Some ''W-1''\<rparr>,
        \<lparr>p_id = 2, p_product_name = ''Stool'', p_material_id = 2, p_type_id = 1,
         p_min_price = Some 0, p_article = Some ''A2''\<rparr>],
       products_workshop :=
       [\<lparr>pw_id = 1, pw_product_id = 1, pw_workshop_id = 1, pw_production_time = Some 2.5\<rparr>,
        \<lparr>pw_id = 2, pw_product_id = 1, pw_workshop_id = 2, pw_production_time = Some 3.5\<rparr>],
       products_id_seq := 2, products_workshop_id_seq := 2\<rparr>"

definition stocked_pool :: pg where
  "stocked_pool = \<lparr>store = stocked_db, txn = None, faults = []\<rparr>"


section \<open>Numeric normalisation of the importer\<close>

lemma ReplaceAll_one: "ReplaceAll s old [new] = map (\<lambda>c. if c = old then new else c) s"
  by (induction s) simp_all

lemma ReplaceAll_none: "ReplaceAll s old [] = filter (\<lambda>c. c \<noteq> old) s"
  by (induction s) simp_all

text \<open>What trimming removes, and what it leaves.\<close>

lemma leading_width_0_iff:
  "(leading_width encs s = 0) = (\<forall>e \<in> set encs. e \<noteq> [] \<longrightarrow> \<not> prefix e s)"
proof -
  have p: "(take (length e) s = e) = prefix e s" for e :: string
    by (metis prefix_def append_eq_conv_conj take_is_prefix)
  show ?thesis
  proof (cases "filter (\<lambda>e. e \<noteq> [] \<and> take (length e) s = e) encs")
    case Nil
    then show ?thesis by (auto simp: leading_width_def filter_empty_conv p)
  next
    case (Cons e es)
    then have "e \<in> set (filter (\<lambda>e. e \<noteq> [] \<and> take (length e) s = e) encs)" by simp
    then have "e \<in> set encs" "e \<noteq> []" "prefix e s" by (auto simp: p)
    with Cons show ?thesis by (auto simp: leading_width_def)
  qed
qed

lemma leading_width_pos:
  assumes "leading_width encs s \<noteq> 0"
  shows "\<exists>e \<in> set encs. s = e @ drop (leading_width encs s) s"
proof (cases "filter (\<lambda>e. e \<noteq> [] \<and> take (length e) s = e) encs")
  case Nil
  with assms show ?thesis by (simp add: leading_width_def)
next
  case (Cons e es)
  then have "e \<in> set (filter (\<lambda>e. e \<noteq> [] \<and> take (length e) s = e) encs)" by simp
  then have "e \<in> set encs" "take (length e) s = e" by auto
  moreover from Cons have "leading_width encs s = length e" by (simp add: leading_width_def)
  ultimately show ?thesis by (metis append_take_drop_id)
qed

lemma trim_leading_splits:
  "\<exists>ws. set ws \<subseteq> set encs \<and> s = concat ws @ trim_leading encs s"
proof (induction encs s rule: trim_leading.induct)
  case (1 encs s)
  show ?case
  proof (cases "leading_width encs s = 0")
    case True
    then have "trim_leading encs s = s" by (simp add: trim_leading.simps)
    then show ?thesis by (intro exI [of _ "[]"]) simp
  next
    case False
    from leading_width_pos [OF False] obtain e where
      e: "e \<in> set encs" "s = e @ drop (leading_width encs s) s" by blast
    from 1 [OF False] obtain ws where
      ws: "set ws \<subseteq> set encs"
        "drop (leading_width encs s) s = concat ws @ trim_leading encs (drop (leading_width encs s) s)"
      by blast
    from False have t: "trim_leading encs s = trim_leading encs (drop (leading_width encs s) s)"
      by (subst trim_leading.simps) simp
    have "s = concat (e # ws) @ trim_leading encs s"
      using e(2) ws(2) t by (metis append.assoc concat.simps(2))
    with e(1) ws(1) show ?thesis by (intro exI [of _ "e # ws"]) simp
  qed
qed

lemma trim_leading_done: "leading_width encs (trim_leading encs s) = 0"
proof (induction encs s rule: trim_leading.induct)
  case (1 encs s)
  show ?case
  proof (cases "leading_width encs s = 0")
    case True
    then show ?thesis by (simp add: trim_leading.simps)
  next
    case False
    with 1 show ?thesis by (subst trim_leading.simps) simp
  qed
qed

lemma space_encodings_nonempty: "e \<in> set space_encodings \<Longrightarrow> e \<noteq> []"
  by (auto simp: space_encodings_def)

lemma TrimSpace_trims:
  "\<exists>ws1 ws2. set ws1 \<subseteq> set space_encodings \<and> set ws2 \<subseteq> set space_encodings \<and>
     s = concat ws1 @ TrimSpace s @ concat ws2 \<and>
     (\<forall>e \<in> set space_encodings. \<not> prefix e (TrimSpace s) \<and> \<not> suffix e (TrimSpace s))"
proof -
  let ?a = "trim_leading space_encodings s"
  let ?b = "trim_leading (map rev space_encodings) (rev ?a)"
  from trim_leading_splits [of space_encodings s] obtain ws1 where
    ws1: "set ws1 \<subseteq> set space_encodings" "s = concat ws1 @ ?a" by blast
  from trim_leading_splits [of "map rev space_encodings" "rev ?a"] obtain ws where
    ws: "set ws \<subseteq> set (map rev space_encodings)" "rev ?a = concat ws @ ?b" by blast
  let ?ws2 = "map rev (rev ws)"
  have t: "TrimSpace s = rev ?b" by (simp add: TrimSpace_def)
  from ws(2) have "?a = rev (concat ws @ ?b)" by (metis rev_rev_ident)
  then have a: "?a = TrimSpace s @ concat ?ws2" by (simp add: t rev_concat)
  have ws2: "set ?ws2 \<subseteq> set space_encodings"
  proof
    fix e assume "e \<in> set ?ws2"
    then obtain w where "w \<in> set ws" "e = rev w" by auto
    with ws(1) obtain e' where "e' \<in> set space_encodings" "w = rev e'" by auto
    with \<open>e = rev w\<close> show "e \<in> set space_encodings" by simp
  qed
  have no_pre: "\<not> prefix e (TrimSpace s)" if e: "e \<in> set space_encodings" for e
  proof
    assume "prefix e (TrimSpace s)"
    then have "prefix e ?a" by (subst a) (rule prefix_prefix)
    moreover from trim_leading_done [of space_encodings s] e
    have "\<not> prefix e ?a" by (simp add: leading_width_0_iff space_encodings_nonempty)
    ultimately show False by simp
  qed
  have no_suf: "\<not> suffix e (TrimSpace s)" if e: "e \<in> set space_encodings" for e
  proof
    assume "suffix e (TrimSpace s)"
    then have "prefix (rev e) ?b" by (simp add: t suffix_to_prefix)
    moreover from trim_leading_done [of "map rev space_encodings" "rev ?a"] e
    have "\<not> prefix (rev e) ?b"
      by (auto simp: leading_width_0_iff dest: space_encodings_nonempty)
    ultimately show False by simp
  qed
  from ws1 ws2 a no_pre no_suf show ?thesis
    by (intro exI [of _ ws1] exI [of _ ?ws2]) simp
qed

lemma parseDecimal_after_trim:
  "parseDecimal pf s =
     (let u = filter (\<lambda>c. c \<noteq> CHR '' '')
                (map (\<lambda>c. if c = CHR '','' then CHR ''.'' else c) (TrimSpace s))
      in if u = [] then Inr 0
         else (case pf u of Inl err \<Rightarrow> Inl (ErrInvalidNumber err) | Inr v \<Rightarrow> Inr v))"
  by (simp add: parseDecimal_def Let_def ReplaceAll_one ReplaceAll_none)

text \<open>
  C7. \<^verbatim>\<open>parseDecimal\<close> trims the input, treats a comma as the decimal separator and
  strips the spaces. Every input is a run of white-space runes, a middle part that
  neither starts nor ends with a white-space rune, and a run of white-space runes; the
  result is 0 when the middle part holds nothing but spaces, and otherwise what the
  parser, whatever it is, makes of the middle part with every comma turned into a point
  and every space removed. For the input \<^verbatim>\<open>"12,50"\<close> the result is exactly 12.50, with
  no error, and so it is for the same text after a tab and before a space and a newline,
  which the parser alone refuses, and between two runs of all the white-space runes.
\<close>

theorem parseDecimal_normalises:
  "(\<exists>ws1 t ws2.
      set ws1 \<subseteq> set space_encodings \<and> set ws2 \<subseteq> set space_encodings \<and>
      s = concat ws1 @ t @ concat ws2 \<and>
      (\<forall>e \<in> set space_encodings. \<not> prefix e t \<and> \<not> suffix e t) \<and>
      parseDecimal pf s =
        (let u = filter (\<lambda>c. c \<noteq> CHR '' '')
                   (map (\<lambda>c. if c = CHR '','' then CHR ''.'' else c) t)
         in if u = [] then Inr 0
            else (case pf u of Inl err \<Rightarrow> Inl (ErrInvalidNumber err) | Inr v \<Rightarrow> Inr v)))
   \<and> parseDecimal ParseFloat_decimal ''12,50'' = Inr 12.50
   \<and> parseDecimal ParseFloat_decimal ([CHR 0x09] @ ''12,50 '' @ [CHR 0x0A]) = Inr 12.50
   \<and> ParseFloat_decimal ([CHR 0x09] @ ''12.50'' @ [CHR 0x0A]) = Inl ErrSyntax
   \<and> parseDecimal ParseFloat_decimal (every_space_rune @ ''12,50'' @ every_space_rune) = Inr 12.50"
proof (intro conjI)
  from TrimSpace_trims [of s] obtain ws1 ws2 where
    "set ws1 \<subseteq> set space_encodings" "set ws2 \<subseteq> set space_encodings"
    "s = concat ws1 @ TrimSpace s @ concat ws2"
    "\<forall>e \<in> set space_encodings. \<not> prefix e (TrimSpace s) \<and> \<not> suffix e (TrimSpace s)"
    by blast
  with parseDecimal_after_trim [of pf s]
  show "\<exists>ws1 t ws2.
      set ws1 \<subseteq> set space_encodings \<and> set ws2 \<subseteq> set space_encodings \<and>
      s = concat ws1 @ t @ concat ws2 \<and>
      (\<forall>e \<in> set space_encodings. \<not> prefix e t \<and> \<not> suffix e t) \<and>
      parseDecimal pf s =
        (let u = filter (\<lambda>c. c \<noteq> CHR '' '')
                   (map (\<lambda>c. if c = CHR '','' then CHR ''.'' else c) t)
         in if u = [] then Inr 0
            else (case pf u of Inl err \<Rightarrow> Inl (ErrInvalidNumber err) | Inr v \<Rightarrow> Inr v))"
    by (intro exI [of _ ws1] exI [of _ "TrimSpace s"] exI [of _ ws2]) blast
next
  have "parseDecimal ParseFloat_decimal ''12,50'' = Inr (25 / 2)"
    by code_simp
  then show "parseDecimal ParseFloat_decimal ''12,50'' = Inr 12.50"
    by simp
next
  have "parseDecimal ParseFloat_decimal ([CHR 0x09] @ ''12,50 '' @ [CHR 0x0A]) = Inr (25 / 2)"
    by code_simp
  then show "parseDecimal ParseFloat_decimal ([CHR 0x09] @ ''12,50 '' @ [CHR 0x0A]) = Inr 12.50"
    by simp
next
  show "ParseFloat_decimal ([CHR 0x09] @ ''12.50'' @ [CHR 0x0A]) = Inl ErrSyntax"
    by code_simp
next
  have "parseDecimal ParseFloat_decimal (every_space_rune @ ''12,50'' @ every_space_rune)
      = Inr (25 / 2)"
    by code_simp
  then show "parseDecimal ParseFloat_decimal (every_space_rune @ ''12,50'' @ every_space_rune)
      = Inr 12.50"
    by simp
qed

theorem parseDecimal_normalises_witness:
  "parseDecimal ParseFloat_decimal ([CHR 0xC2, CHR 0xA0] @ '' 1 234,5 '' @ [CHR 0x0D, CHR 0x0A])
     = Inr 1234.5
   \<and> (\<exists>ws1 t ws2.
        set ws1 \<subseteq> set space_encodings \<and> set ws2 \<subseteq> set space_encodings \<and>
        [CHR 0xC2, CHR 0xA0] @ '' 1 234,5 '' @ [CHR 0x0D, CHR 0x0A] = concat ws1 @ t @ concat ws2 \<and>
        (\<forall>e \<in> set space_encodings. \<not> prefix e t \<and> \<not> suffix e t) \<and>
        (let u = filter (\<lambda>c. c \<noteq> CHR '' '')
                   (map (\<lambda>c. if c = CHR '','' then CHR ''.'' else c) t)
         in if u = [] then Inr 0
            else (case ParseFloat_decimal u of
                    Inl err \<Rightarrow> Inl (ErrInvalidNumber err)
                  | Inr v \<Rightarrow> Inr v)) = Inr 1234.5)
   \<and> TrimSpace ([CHR 0xC2, CHR 0xA0] @ '' 1 234,5 '' @ [CHR 0x0D, CHR 0x0A]) = ''1 234,5''"
proof -
  let ?s = "[CHR 0xC2, CHR 0xA0] @ '' 1 234,5 '' @ [CHR 0x0D, CHR 0x0A]"
  have v: "parseDecimal ParseFloat_decimal ?s = Inr 1234.5" by code_simp
  have t: "TrimSpace ?s = ''1 234,5''" by code_simp
  from parseDecimal_normalises [of ?s ParseFloat_decimal] obtain ws1 t ws2 where
    "set ws1 \<subseteq> set space_encodings" "set ws2 \<subseteq> set space_encodings"
    "?s = concat ws1 @ t @ concat ws2"
    "\<forall>e \<in> set space_encodings. \<not> prefix e t \<and> \<not> suffix e t"
    "parseDecimal ParseFloat_decimal ?s =
        (let u = filter (\<lambda>c. c \<noteq> CHR '' '')
                   (map (\<lambda>c. if c = CHR '','' then CHR ''.'' else c) t)
         in if u = [] then Inr 0
            else (case ParseFloat_decimal u of
                    Inl err \<Rightarrow> Inl (ErrInvalidNumber err)
                  | Inr v \<Rightarrow> Inr v))"
    by blast
  with v t show ?thesis by metis
qed

section \<open>Deletion\<close>

text \<open>
  C2. For every product identifier, \<^verbatim>\<open>DeleteById\<close> reports the "nothing deleted"
  failure whenever the affected-row count of the delete statement is zero, whatever the
  error value of the same call is: the count is looked at first. A statement that
  reports an error reports zero affected rows, and the caller then sees "nothing
  deleted", not the message of the error check.
\<close>

theorem DeleteById_row_count_first:
  "(\<forall>rows_affected err c1.
      pool_Exec_delete pool product_id = ((rows_affected, err), c1) \<and> rows_affected = 0
      \<longrightarrow> DeleteById pool product_id = (Some ErrNothingDeleted, c1))
   \<and> (\<forall>rows_affected err c1.
      pool_Exec_delete pool product_id = ((rows_affected, err), c1) \<and> err \<noteq> None
      \<longrightarrow> rows_affected = 0 \<and> DeleteById pool product_id = (Some ErrNothingDeleted, c1))"
  by (auto simp: DeleteById_def pool_Exec_delete_def Let_def split: prod.splits if_splits)

theorem DeleteById_row_count_first_witness:
  "pool_Exec_delete (example_pool []) 7 = ((0, None), example_pool [])
   \<and> DeleteById (example_pool []) 7 = (Some ErrNothingDeleted, example_pool [])
   \<and> pool_Exec_delete (example_pool [True]) 7 = ((0, Some ErrDriver), example_pool [])
   \<and> DeleteById (example_pool [True]) 7 = (Some ErrNothingDeleted, example_pool [])"
proof -
  have a: "pool_Exec_delete (example_pool []) 7 = ((0, None), example_pool [])" by code_simp
  have b: "pool_Exec_delete (example_pool [True]) 7 = ((0, Some ErrDriver), example_pool [])"
    by code_simp
  show ?thesis
    using DeleteById_row_count_first [of "example_pool []" 7]
      DeleteById_row_count_first [of "example_pool [True]" 7] a b
    by simp
qed

section \<open>The transactional write path\<close>

lemma next_fault_store [simp]: "store (snd (next_fault c)) = store c"
  by (simp add: next_fault_def split: list.splits)

lemma next_fault_txn [simp]: "txn (snd (next_fault c)) = txn c"
  by (simp add: next_fault_def split: list.splits)

lemma next_fault_cases:
  obtains c1 where "next_fault c = (False, c1)" "store c1 = store c" "txn c1 = txn c"
  | c1 where "next_fault c = (True, c1)" "store c1 = store c" "txn c1 = txn c"
  by (cases "next_fault c") (metis (full_types) next_fault_store next_fault_txn snd_conv)

lemma insert_product_Inr:
  assumes "insert_product d name material type price art = (Inr i, d')"
  shows "products d' = products d @
           [\<lparr>p_id = i, p_product_name = name, p_material_id = material, p_type_id = type,
             p_min_price = Some price, p_article = Some art\<rparr>]"
    and "products_workshop d' = products_workshop d"
  using assms by (auto simp: insert_product_def Let_def split: if_splits)

lemma insert_products_workshop_products:
  "insert_products_workshop d product workshop time = (r, d') \<Longrightarrow> products d' = products d"
  by (auto simp: insert_products_workshop_def Let_def split: if_splits)

lemma insert_products_workshop_Inr:
  assumes "insert_products_workshop d product workshop time = (Inr i, d')"
  shows "products_workshop d' = products_workshop d @
           [\<lparr>pw_id = i, pw_product_id = product, pw_workshop_id = workshop,
             pw_production_time = Some time\<rparr>]"
  using assms by (auto simp: insert_products_workshop_def Let_def split: if_splits)

text \<open>What a transaction has added to the tables it started from.\<close>

lemma tx_insert_products_workshop_Inr:
  assumes "tx_insert_products_workshop c product workshop time = (Inr i, c')"
    and "txn c = Some w"
  shows "store c' = store c"
    and "\<exists>w'. txn c' = Some w' \<and> products w' = products w \<and>
           products_workshop w' = products_workshop w @
             [\<lparr>pw_id = i, pw_product_id = product, pw_workshop_id = workshop,
               pw_production_time = Some time\<rparr>]"
proof -
  from assms obtain c1 w1 where
    c1: "store c1 = store c" and
    ins: "insert_products_workshop w product workshop time = (Inr i, w1)" and
    c': "c' = c1\<lparr>txn := Some w1\<rparr>"
    by (cases c rule: next_fault_cases)
       (auto simp: tx_insert_products_workshop_def Let_def split: prod.splits)
  show "store c' = store c" using c1 c' by simp
  show "\<exists>w'. txn c' = Some w' \<and> products w' = products w \<and>
           products_workshop w' = products_workshop w @
             [\<lparr>pw_id = i, pw_product_id = product, pw_workshop_id = workshop,
               pw_production_time = Some time\<rparr>]"
    using c' insert_products_workshop_products [OF ins] insert_products_workshop_Inr [OF ins]
    by simp
qed

lemma tx_insert_products_workshop_store:
  "tx_insert_products_workshop c product workshop time = (r, c') \<Longrightarrow> store c' = store c"
  by (cases c rule: next_fault_cases)
     (auto simp: tx_insert_products_workshop_def Let_def split: prod.splits option.splits)

lemma insert_workshops_store:
  "insert_workshops tx productID ws = (r, tx') \<Longrightarrow> store tx' = store tx"
proof (induction ws arbitrary: tx)
  case Nil
  then show ?case by simp
next
  case (Cons workshop rest)
  show ?case
  proof (cases "tx_insert_products_workshop tx productID (WorkshopID workshop) (ProductionTime workshop)")
    case (Pair res tx1)
    then have s: "store tx1 = store tx" by (rule tx_insert_products_workshop_store)
    show ?thesis
    proof (cases res)
      case (Inl err)
      with Pair Cons.prems s show ?thesis by simp
    next
      case (Inr i)
      with Pair Cons.prems have "insert_workshops tx1 productID rest = (r, tx')" by simp
      then show ?thesis using Cons.IH s by simp
    qed
  qed
qed

lemma insert_workshops_None:
  assumes "insert_workshops tx productID ws = (None, tx')" and "txn tx = Some w"
  shows "\<exists>w' links. txn tx' = Some w' \<and> products w' = products w \<and>
           products_workshop w' = products_workshop w @ links \<and>
           map link_columns links = map (link_of productID) ws"
  using assms
proof (induction ws arbitrary: tx w)
  case Nil
  then show ?case by simp
next
  case (Cons workshop rest)
  obtain res tx1 where step:
    "tx_insert_products_workshop tx productID (WorkshopID workshop) (ProductionTime workshop) = (res, tx1)"
    by (cases "tx_insert_products_workshop tx productID (WorkshopID workshop) (ProductionTime workshop)")
  with Cons.prems(1) obtain i where res: "res = Inr i"
    and rest: "insert_workshops tx1 productID rest = (None, tx')"
    by (cases res) auto
  from tx_insert_products_workshop_Inr(2) [OF step [unfolded res] Cons.prems(2)]
  obtain w1 where w1: "txn tx1 = Some w1" "products w1 = products w"
    "products_workshop w1 = products_workshop w @
       [\<lparr>pw_id = i, pw_product_id = productID, pw_workshop_id = WorkshopID workshop,
         pw_production_time = Some (ProductionTime workshop)\<rparr>]"
    by blast
  from Cons.IH [OF rest w1(1)] obtain w' links where
    "txn tx' = Some w'" "products w' = products w1"
    "products_workshop w' = products_workshop w1 @ links"
    "map link_columns links = map (link_of productID) rest"
    by blast
  moreover have "link_columns \<lparr>pw_id = i, pw_product_id = productID,
          pw_workshop_id = WorkshopID workshop,
          pw_production_time = Some (ProductionTime workshop)\<rparr> = link_of productID workshop"
    by (simp add: link_columns_def link_of_def)
  ultimately show ?case using w1
    by (intro exI [of _ w'] exI [of _ "\<lparr>pw_id = i, pw_product_id = productID,
          pw_workshop_id = WorkshopID workshop,
          pw_production_time = Some (ProductionTime workshop)\<rparr> # links"])
       simp
qed

lemma tx_insert_product_Inr:
  assumes "tx_insert_product c name material type price art = (Inr i, c')"
  shows "store c' = store c"
    and "\<exists>w w'. txn c = Some w \<and> txn c' = Some w' \<and>
           products w' = products w @
             [\<lparr>p_id = i, p_product_name = name, p_material_id = material, p_type_id = type,
               p_min_price = Some price, p_article = Some art\<rparr>] \<and>
           products_workshop w' = products_workshop w"
proof -
  from assms obtain w c1 w1 where
    w: "txn c = Some w" and c1: "store c1 = store c" and
    ins: "insert_product w name material type price art = (Inr i, w1)" and
    c': "c' = c1\<lparr>txn := Some w1\<rparr>"
    by (cases c rule: next_fault_cases)
       (auto simp: tx_insert_product_def Let_def split: prod.splits option.splits)
  show "store c' = store c" using c1 c' by simp
  show "\<exists>w w'. txn c = Some w \<and> txn c' = Some w' \<and>
           products w' = products w @
             [\<lparr>p_id = i, p_product_name = name, p_material_id = material, p_type_id = type,
               p_min_price = Some price, p_article = Some art\<rparr>] \<and>
           products_workshop w' = products_workshop w"
    using w c' insert_product_Inr [OF ins] by simp
qed

lemma tx_insert_product_store:
  "tx_insert_product c name material type price art = (r, c') \<Longrightarrow> store c' = store c"
  by (cases c rule: next_fault_cases)
     (auto simp: tx_insert_product_def Let_def split: prod.splits option.splits)

lemma discard_tables [simp]:
  "products (discard w d) = products d"
  "products_workshop (discard w d) = products_workshop d"
  by (simp_all add: discard_def)

lemma tx_Commit_Inr:
  "tx_Commit c = (Inr u, c') \<Longrightarrow> txn c' = None \<and> (\<exists>w. txn c = Some w \<and> store c' = w)"
  by (cases c rule: next_fault_cases)
     (auto simp: tx_Commit_def Let_def split: prod.splits option.splits)

lemma tx_Commit_Inl:
  "tx_Commit c = (Inl err, c') \<Longrightarrow>
     products (store c') = products (store c) \<and>
     products_workshop (store c') = products_workshop (store c)"
  by (cases c rule: next_fault_cases)
     (auto simp: tx_Commit_def Let_def split: prod.splits option.splits)

lemma tx_Rollback_tables:
  "txn (snd (tx_Rollback c)) = None"
  "products (store (snd (tx_Rollback c))) = products (store c)"
  "products_workshop (store (snd (tx_Rollback c))) = products_workshop (store c)"
  by (simp_all add: tx_Rollback_def split: option.splits)

lemma tx_Rollback_closed: "txn c = None \<Longrightarrow> snd (tx_Rollback c) = c"
  by (simp add: tx_Rollback_def)

lemma body_Inl:
  assumes "CreateProductWithWorkshops_body tx input = (Inl err, tx')"
  shows "products (store tx') = products (store tx)"
    and "products_workshop (store tx') = products_workshop (store tx)"
proof -
  let ?ins = "tx_insert_product tx (cpw_ProductName input) (cpw_MaterialID input)
             (cpw_TypeID input) (cpw_MinPrice input) (cpw_Article input)"
  obtain r1 tx1 where s1: "?ins = (r1, tx1)" by (cases ?ins)
  then have st1: "store tx1 = store tx" by (rule tx_insert_product_store)
  have "products (store tx') = products (store tx) \<and>
        products_workshop (store tx') = products_workshop (store tx)"
  proof (cases r1)
    case (Inl e)
    with s1 assms st1 show ?thesis by (simp add: CreateProductWithWorkshops_body_def)
  next
    case (Inr productID)
    let ?loop = "if length (cpw_Workshops input) > 0
                 then insert_workshops tx1 productID (cpw_Workshops input) else (None, tx1)"
    obtain r2 tx2 where s2: "?loop = (r2, tx2)" by (cases ?loop)
    then have st2: "store tx2 = store tx1"
      by (auto split: if_splits dest: insert_workshops_store)
    show ?thesis
    proof (cases r2)
      case (Some e)
      with s1 s2 Inr assms st1 st2 show ?thesis
        by (simp add: CreateProductWithWorkshops_body_def)
    next
      case None
      obtain r3 tx3 where s3: "tx_Commit tx2 = (r3, tx3)" by (cases "tx_Commit tx2")
      with s1 s2 Inr None assms obtain e where "r3 = Inl e" "tx' = tx3"
        by (cases r3) (auto simp: CreateProductWithWorkshops_body_def)
      with s3 tx_Commit_Inl [of tx2 e tx3] st1 st2 show ?thesis by simp
    qed
  qed
  then show "products (store tx') = products (store tx)"
    and "products_workshop (store tx') = products_workshop (store tx)" by simp_all
qed

lemma body_Inr:
  assumes "CreateProductWithWorkshops_body tx input = (Inr productID, tx')"
    and "txn tx = Some w"
  shows "txn tx' = None \<and>
         products (store tx') = products w @
           [\<lparr>p_id = productID, p_product_name = cpw_ProductName input,
             p_material_id = cpw_MaterialID input, p_type_id = cpw_TypeID input,
             p_min_price = Some (cpw_MinPrice input), p_article = Some (cpw_Article input)\<rparr>] \<and>
         (\<exists>links. products_workshop (store tx') = products_workshop w @ links \<and>
            map link_columns links = map (link_of productID) (cpw_Workshops input))"
proof -
  let ?ins = "tx_insert_product tx (cpw_ProductName input) (cpw_MaterialID input)
             (cpw_TypeID input) (cpw_MinPrice input) (cpw_Article input)"
  obtain r1 tx1 where s1: "?ins = (r1, tx1)" by (cases ?ins)
  with assms(1) have r1: "r1 = Inr productID"
    by (cases r1) (auto simp: CreateProductWithWorkshops_body_def split: prod.splits option.splits sum.splits)
  let ?loop = "if length (cpw_Workshops input) > 0
               then insert_workshops tx1 productID (cpw_Workshops input) else (None, tx1)"
  obtain r2 tx2 where s2: "?loop = (r2, tx2)" by (cases ?loop)
  with s1 r1 assms(1) have r2: "r2 = None"
    by (cases r2) (auto simp: CreateProductWithWorkshops_body_def)
  obtain r3 tx3 where s3: "tx_Commit tx2 = (r3, tx3)" by (cases "tx_Commit tx2")
  with s1 r1 s2 r2 assms(1) obtain u where r3: "r3 = Inr u" and tx': "tx' = tx3"
    by (cases r3) (auto simp: CreateProductWithWorkshops_body_def)
  from tx_insert_product_Inr(2) [OF s1 [unfolded r1]] assms(2)
  obtain w1 where w1: "txn tx1 = Some w1"
    "products w1 = products w @
       [\<lparr>p_id = productID, p_product_name = cpw_ProductName input,
         p_material_id = cpw_MaterialID input, p_type_id = cpw_TypeID input,
         p_min_price = Some (cpw_MinPrice input), p_article = Some (cpw_Article input)\<rparr>]"
    "products_workshop w1 = products_workshop w"
    by auto
  have "\<exists>w2 links. txn tx2 = Some w2 \<and> products w2 = products w1 \<and>
           products_workshop w2 = products_workshop w1 @ links \<and>
           map link_columns links = map (link_of productID) (cpw_Workshops input)"
  proof (cases "length (cpw_Workshops input) > 0")
    case True
    with s2 r2 have "insert_workshops tx1 productID (cpw_Workshops input) = (None, tx2)" by simp
    from insert_workshops_None [OF this w1(1)] show ?thesis .
  next
    case False
    with s2 w1(1) show ?thesis by simp
  qed
  then obtain w2 links where w2: "txn tx2 = Some w2" "products w2 = products w1"
    "products_workshop w2 = products_workshop w1 @ links"
    "map link_columns links = map (link_of productID) (cpw_Workshops input)"
    by blast
  from tx_Commit_Inr [OF s3 [unfolded r3]] w2(1) have "txn tx3 = None" "store tx3 = w2" by auto
  with tx' w1 w2 show ?thesis by auto
qed

lemma pool_Begin_Inr:
  "pool_Begin pool = (Inr u, tx) \<Longrightarrow> store tx = store pool \<and> txn tx = Some (store pool)"
  by (cases pool rule: next_fault_cases) (auto simp: pool_Begin_def Let_def)

lemma pool_Begin_Inl:
  "pool_Begin pool = (Inl err, c1) \<Longrightarrow> store c1 = store pool \<and> txn c1 = txn pool"
  by (cases pool rule: next_fault_cases) (auto simp: pool_Begin_def Let_def)

lemma CreateProductWithWorkshops_Inr:
  assumes "CreateProductWithWorkshops pool input = (Inr productID, pool')"
  shows "txn pool' = None \<and>
         products (store pool') = products (store pool) @
           [\<lparr>p_id = productID, p_product_name = cpw_ProductName input,
             p_material_id = cpw_MaterialID input, p_type_id = cpw_TypeID input,
             p_min_price = Some (cpw_MinPrice input), p_article = Some (cpw_Article input)\<rparr>] \<and>
         (\<exists>links. products_workshop (store pool') = products_workshop (store pool) @ links \<and>
            map link_columns links = map (link_of productID) (cpw_Workshops input))"
proof -
  obtain r0 tx where b: "pool_Begin pool = (r0, tx)" by (cases "pool_Begin pool")
  with assms obtain u where r0: "r0 = Inr u"
    by (cases r0) (auto simp: CreateProductWithWorkshops_def)
  obtain r tx1 where body: "CreateProductWithWorkshops_body tx input = (r, tx1)"
    by (cases "CreateProductWithWorkshops_body tx input")
  with b r0 assms have r: "r = Inr productID" and p': "pool' = snd (tx_Rollback tx1)"
    by (auto simp: CreateProductWithWorkshops_def)
  from pool_Begin_Inr [OF b [unfolded r0]] have tx: "txn tx = Some (store pool)" by simp
  from body_Inr [OF body [unfolded r] tx] have *: "txn tx1 = None"
    "products (store tx1) = products (store pool) @
           [\<lparr>p_id = productID, p_product_name = cpw_ProductName input,
             p_material_id = cpw_MaterialID input, p_type_id = cpw_TypeID input,
             p_min_price = Some (cpw_MinPrice input), p_article = Some (cpw_Article input)\<rparr>]"
    "\<exists>links. products_workshop (store tx1) = products_workshop (store pool) @ links \<and>
            map link_columns links = map (link_of productID) (cpw_Workshops input)"
    by simp_all
  from *(1) p' have "pool' = tx1" by (simp add: tx_Rollback_closed)
  with * show ?thesis by simp
qed

lemma CreateProductWithWorkshops_Inl:
  assumes "CreateProductWithWorkshops pool input = (Inl err, pool')"
  shows "products (store pool') = products (store pool)"
    and "products_workshop (store pool') = products_workshop (store pool)"
    and "(\<exists>e. err = ErrBeginTx e \<and> txn pool' = txn pool) \<or> txn pool' = None"
proof -
  obtain r0 tx where b: "pool_Begin pool = (r0, tx)" by (cases "pool_Begin pool")
  have "products (store pool') = products (store pool) \<and>
        products_workshop (store pool') = products_workshop (store pool) \<and>
        ((\<exists>e. err = ErrBeginTx e \<and> txn pool' = txn pool) \<or> txn pool' = None)"
  proof (cases r0)
    case (Inl e)
    with b assms pool_Begin_Inl [of pool e tx] show ?thesis
      by (auto simp: CreateProductWithWorkshops_def)
  next
    case (Inr u)
    obtain r tx1 where body: "CreateProductWithWorkshops_body tx input = (r, tx1)"
      by (cases "CreateProductWithWorkshops_body tx input")
    with b Inr assms have r: "r = Inl err" and p': "pool' = snd (tx_Rollback tx1)"
      by (auto simp: CreateProductWithWorkshops_def)
    from pool_Begin_Inr [OF b [unfolded Inr]] have "store tx = store pool" by simp
    with body_Inl [OF body [unfolded r]] p' show ?thesis
      by (simp add: tx_Rollback_tables)
  qed
  then show "products (store pool') = products (store pool)"
    and "products_workshop (store pool') = products_workshop (store pool)"
    and "(\<exists>e. err = ErrBeginTx e \<and> txn pool' = txn pool) \<or> txn pool' = None"
    by simp_all
qed

text \<open>
  C1. \<^verbatim>\<open>CreateProductWithWorkshops\<close> is atomic. For every pool, product descriptor
  and list of N workshop pairs: when the call succeeds, the committed tables hold exactly
  one more product row, carrying the descriptor and the identifier returned, and exactly
  N more link rows, one per pair in order, each scoped to that identifier; when it fails
  (at the product insert, at any link insert, at the commit, or already at the opening of
  the transaction), the committed product and link tables are what they were before the
  call. On every path on which the transaction was opened it is closed when the function
  returns.
\<close>

theorem CreateProductWithWorkshops_atomic:
  "(case CreateProductWithWorkshops pool input of
      (Inr productID, pool') \<Rightarrow>
        txn pool' = None \<and>
        products (store pool') = products (store pool) @
          [\<lparr>p_id = productID, p_product_name = cpw_ProductName input,
            p_material_id = cpw_MaterialID input, p_type_id = cpw_TypeID input,
            p_min_price = Some (cpw_MinPrice input), p_article = Some (cpw_Article input)\<rparr>] \<and>
        (\<exists>links. products_workshop (store pool') = products_workshop (store pool) @ links \<and>
           length links = length (cpw_Workshops input) \<and>
           map link_columns links = map (link_of productID) (cpw_Workshops input))
    | (Inl err, pool') \<Rightarrow>
        products (store pool') = products (store pool) \<and>
        products_workshop (store pool') = products_workshop (store pool) \<and>
        ((\<exists>e. err = ErrBeginTx e \<and> txn pool' = txn pool) \<or> txn pool' = None))"
proof (cases "CreateProductWithWorkshops pool input")
  case (Pair r pool')
  show ?thesis
  proof (cases r)
    case (Inl err)
    with Pair CreateProductWithWorkshops_Inl [of pool input err pool'] show ?thesis by simp
  next
    case (Inr productID)
    from CreateProductWithWorkshops_Inr [OF Pair [unfolded Inr]]
    obtain links where l: "products_workshop (store pool') = products_workshop (store pool) @ links"
      "map link_columns links = map (link_of productID) (cpw_Workshops input)"
      and rest: "txn pool' = None"
        "products (store pool') = products (store pool) @
          [\<lparr>p_id = productID, p_product_name = cpw_ProductName input,
            p_material_id = cpw_MaterialID input, p_type_id = cpw_TypeID input,
            p_min_price = Some (cpw_MinPrice input), p_article = Some (cpw_Article input)\<rparr>]"
      by blast
    from l(2) have "length links = length (cpw_Workshops input)" by (rule map_eq_imp_length_eq)
    with l rest Pair Inr show ?thesis by auto
  qed
qed


theorem CreateProductWithWorkshops_atomic_witness:
  "fst (CreateProductWithWorkshops (example_pool []) example_input) = Inr 1
   \<and> length (products (store (snd (CreateProductWithWorkshops (example_pool []) example_input)))) = 1
   \<and> length (products_workshop (store (snd (CreateProductWithWorkshops (example_pool []) example_input)))) = 2
   \<and> fst (CreateProductWithWorkshops (example_pool []) duplicate_input)
       = Inl (ErrAddWorkshop 1 ErrUniqueViolation)
   \<and> products (store (snd (CreateProductWithWorkshops (example_pool []) duplicate_input))) = []
   \<and> products_workshop (store (snd (CreateProductWithWorkshops (example_pool []) duplicate_input))) = []
   \<and> fst (CreateProductWithWorkshops (example_pool [False, False, False, False, True]) example_input)
       = Inl (ErrCommitTx ErrDriver)
   \<and> products (store (snd (CreateProductWithWorkshops
         (example_pool [False, False, False, False, True]) example_input))) = []
   \<and> products_workshop (store (snd (CreateProductWithWorkshops
         (example_pool [False, False, False, False, True]) example_input))) = []"
proof -
  have tables: "products (store (example_pool fs)) = []"
    "products_workshop (store (example_pool fs)) = []" for fs
    by (simp_all add: example_pool_def example_db_def)
  have n: "length (cpw_Workshops example_input) = 2" by (simp add: example_input_def)
  have a: "fst (CreateProductWithWorkshops (example_pool []) example_input) = Inr 1"
    by code_simp
  have b: "fst (CreateProductWithWorkshops (example_pool []) duplicate_input)
       = Inl (ErrAddWorkshop 1 ErrUniqueViolation)"
    by code_simp
  have c: "fst (CreateProductWithWorkshops (example_pool [False, False, False, False, True])
       example_input) = Inl (ErrCommitTx ErrDriver)"
    by code_simp
  show ?thesis
    using a b c
      CreateProductWithWorkshops_atomic [of "example_pool []" example_input]
      CreateProductWithWorkshops_atomic [of "example_pool []" duplicate_input]
      CreateProductWithWorkshops_atomic [of "example_pool [False, False, False, False, True]"
        example_input]
    by (auto simp: tables n split: prod.splits sum.splits)
qed

section \<open>The aggregated read\<close>

lemma filter_key_unique:
  "distinct (map f xs) \<Longrightarrow>
     filter (\<lambda>x. k = f x) xs = [] \<or> (\<exists>x. filter (\<lambda>x. k = f x) xs = [x])"
proof (induction xs)
  case Nil
  then show ?case by simp
next
  case (Cons a xs)
  show ?case
  proof (cases "k = f a")
    case True
    with Cons.prems have "filter (\<lambda>x. k = f x) xs = []"
      by (auto simp: filter_empty_conv)
    with True show ?thesis by simp
  next
    case False
    with Cons show ?thesis by simp
  qed
qed

lemma product_rows_fst: "r \<in> set (product_rows d p) \<Longrightarrow> fst r = p"
  by (auto simp: product_rows_def)

lemma product_rows_shape:
  assumes "primary_keys d"
  shows "product_rows d p = [] \<or>
         (\<exists>m pt. product_rows d p = map (\<lambda>pw. (p, m, pt, pw)) (left_join_workshop d p))"
proof -
  from assms have dm: "distinct (map m_id (materials d))"
    and dt: "distinct (map pt_id (products_types d))"
    by (simp_all add: primary_keys_def)
  from filter_key_unique [OF dm, of "p_material_id p"]
  consider "filter (\<lambda>m. p_material_id p = m_id m) (materials d) = []"
    | m where "filter (\<lambda>m. p_material_id p = m_id m) (materials d) = [m]"
    by blast
  then show ?thesis
  proof cases
    case 1
    then show ?thesis by (simp add: product_rows_def)
  next
    case (2 m)
    from filter_key_unique [OF dt, of "p_type_id p"]
    consider "filter (\<lambda>pt. p_type_id p = pt_id pt) (products_types d) = []"
      | pt where "filter (\<lambda>pt. p_type_id p = pt_id pt) (products_types d) = [pt]"
      by blast
    then show ?thesis
    proof cases
      case 1
      with 2 show ?thesis by (simp add: product_rows_def)
    next
      case (2 pt)
      with \<open>filter (\<lambda>m. p_material_id p = m_id m) (materials d) = [m]\<close>
      show ?thesis by (simp add: product_rows_def)
    qed
  qed
qed

lemma filter_other_products:
  "\<forall>q \<in> set ps. p_id q \<noteq> i \<Longrightarrow>
     filter (\<lambda>r. p_id (fst r) = i) (concat (map (product_rows d) ps)) = []"
  by (induction ps) (auto simp: filter_empty_conv dest: product_rows_fst)

lemma filter_own_product:
  "filter (\<lambda>r. p_id (fst r) = p_id p) (product_rows d p) = product_rows d p"
  by (auto simp: filter_id_conv dest: product_rows_fst)

lemma filter_joined_by_id:
  assumes "distinct (map p_id ps)" and "p \<in> set ps"
  shows "filter (\<lambda>r. p_id (fst r) = p_id p) (concat (map (product_rows d) ps)) = product_rows d p"
  using assms
proof (induction ps)
  case Nil
  then show ?case by simp
next
  case (Cons a ps)
  show ?case
  proof (cases "a = p")
    case True
    with Cons.prems have "\<forall>q \<in> set ps. p_id q \<noteq> p_id p"
      by (auto simp: image_iff)
    then have "filter (\<lambda>r. p_id (fst r) = p_id p) (concat (map (product_rows d) ps)) = []"
      by (rule filter_other_products)
    with True show ?thesis by (simp add: filter_own_product)
  next
    case False
    with Cons.prems have p: "p \<in> set ps" and "p_id a \<noteq> p_id p"
      by (auto simp: image_iff)
    then have "filter (\<lambda>r. p_id (fst r) = p_id p) (product_rows d a) = []"
      by (auto simp: filter_empty_conv dest: product_rows_fst)
    with Cons p show ?thesis by simp
  qed
qed

lemma key_of_id: "fst (key_of r) = p_id (fst r)"
  by (simp add: key_of_def split: prod.splits)

text \<open>The rows of one group are the rows of one product.\<close>

lemma group_is_product:
  assumes pk: "primary_keys d" and r0: "r0 \<in> set (joined d)"
  shows "filter (\<lambda>r. key_of r = key_of r0) (joined d) = product_rows d (fst r0)"
proof -
  from r0 obtain p where p: "p \<in> set (products d)" and in_p: "r0 \<in> set (product_rows d p)"
    by (auto simp: joined_def)
  then have fst0: "fst r0 = p" by (auto dest: product_rows_fst)
  from pk have dp: "distinct (map p_id (products d))" by (simp add: primary_keys_def)
  have "filter (\<lambda>r. key_of r = key_of r0) (joined d)
      = filter (\<lambda>r. key_of r = key_of r0) (filter (\<lambda>r. p_id (fst r) = p_id p) (joined d))"
    using fst0 by (auto simp: key_of_id [symmetric] intro!: filter_cong)
  also have "\<dots> = filter (\<lambda>r. key_of r = key_of r0) (product_rows d p)"
    using filter_joined_by_id [OF dp p, of d] by (simp add: joined_def)
  also have "\<dots> = product_rows d p"
  proof -
    from product_rows_shape [OF pk, of p] in_p obtain m pt where
      shape: "product_rows d p = map (\<lambda>pw. (p, m, pt, pw)) (left_join_workshop d p)"
      by auto
    with in_p obtain pw0 where "r0 = (p, m, pt, pw0)" by auto
    then have "\<forall>r \<in> set (product_rows d p). key_of r = key_of r0"
      by (auto simp: shape key_of_def)
    then show ?thesis by (simp add: filter_id_conv)
  qed
  finally show ?thesis using fst0 by simp
qed

lemma map_filter_id_map: "List.map_filter id (map f xs) = List.map_filter f xs"
  by (induction xs) (simp_all add: List.map_filter_simps split: option.splits)

lemma sum_of_product_rows:
  assumes "product_rows d p = map (\<lambda>pw. (p, m, pt, pw)) (left_join_workshop d p)"
  shows "sql_COALESCE (sql_SUM (map time_of (product_rows d p))) 0 = sum_list (link_times d (p_id p))"
proof (cases "filter (\<lambda>pw. pw_product_id pw = p_id p) (products_workshop d)")
  case Nil
  then show ?thesis
    by (simp add: assms left_join_workshop_def time_of_def sql_SUM_def sql_COALESCE_def
        link_times_def List.map_filter_simps)
next
  case (Cons l ls)
  then have "map time_of (product_rows d p) = map pw_production_time (l # ls)"
    by (simp add: assms left_join_workshop_def time_of_def)
  then have "List.map_filter id (map time_of (product_rows d p)) = link_times d (p_id p)"
    by (simp only: map_filter_id_map link_times_def Cons)
  then show ?thesis
    by (cases "link_times d (p_id p)") (simp_all add: sql_SUM_def sql_COALESCE_def)
qed


lemma group_total:
  assumes pk: "primary_keys d" and r0: "r0 \<in> set (joined d)"
  shows "sql_COALESCE (sql_SUM (map time_of (filter (\<lambda>r. key_of r = key_of r0) (joined d)))) 0
           = sum_list (link_times d (p_id (fst r0)))"
proof -
  from r0 obtain p where "p \<in> set (products d)" and in_p: "r0 \<in> set (product_rows d p)"
    by (auto simp: joined_def)
  then have fst0: "fst r0 = p" by (auto dest: product_rows_fst)
  from product_rows_shape [OF pk, of p] in_p obtain m pt where
    "product_rows d p = map (\<lambda>pw. (p, m, pt, pw)) (left_join_workshop d p)"
    by auto
  then have "sql_COALESCE (sql_SUM (map time_of (product_rows d p))) 0
               = sum_list (link_times d (p_id p))"
    by (rule sum_of_product_rows)
  with group_is_product [OF pk r0] fst0 show ?thesis by simp
qed

lemma group_by_product_all:
  assumes pk: "primary_keys d" and row: "(k, t) \<in> set (group_by_product (joined d))"
  shows "t = sum_list (link_times d (fst k))"
proof -
  from row obtain r0 where r0: "r0 \<in> set (joined d)" and k: "k = key_of r0"
    and t: "t = sql_COALESCE (sql_SUM (map time_of (filter (\<lambda>r. key_of r = k) (joined d)))) 0"
    by (auto simp: group_by_product_def)
  from group_total [OF pk r0] k t show ?thesis by (simp add: key_of_id)
qed

lemma group_by_product_one:
  assumes pk: "primary_keys d" and row: "(k, t) \<in> set (product_by_id_query d i)"
  shows "fst k = i \<and> t = sum_list (link_times d i)"
proof -
  let ?rows = "filter (\<lambda>r. case r of (p, m, pt, pw) \<Rightarrow> p_id p = i) (joined d)"
  from row obtain r0 where r0: "r0 \<in> set ?rows" and k: "k = key_of r0"
    and t: "t = sql_COALESCE (sql_SUM (map time_of (filter (\<lambda>r. key_of r = k) ?rows))) 0"
    by (auto simp: group_by_product_def product_by_id_query_def)
  from r0 have in_j: "r0 \<in> set (joined d)" and id0: "p_id (fst r0) = i"
    by (auto split: prod.splits)
  have same_id: "case r of (p, m, pt, pw) \<Rightarrow> p_id p = i" if "key_of r = k" for r
  proof -
    from that k have "fst (key_of r) = fst (key_of r0)" by simp
    with id0 have "p_id (fst r) = i" by (simp add: key_of_id)
    then show ?thesis by (cases r) simp
  qed
  have "filter (\<lambda>r. key_of r = k) ?rows = filter (\<lambda>r. key_of r = k) (joined d)"
    by (rule filter_cong [OF refl, of _ _ _, THEN trans [OF filter_filter]])
       (use same_id in blast)
  with group_total [OF pk in_j] k t id0 show ?thesis by (simp add: key_of_id)
qed

lemma Scan_Inr:
  "Scan (k, t) = Inr r \<Longrightarrow> ID r = fst k \<and> TotalProductionTime r = t"
  by (auto simp: Scan_def split: prod.splits option.splits)

lemma scan_rows_Inr:
  "scan_rows acc rows = Inr ps \<Longrightarrow> r \<in> set ps \<Longrightarrow>
     r \<in> set acc \<or> (\<exists>row \<in> set rows. Scan row = Inr r)"
proof (induction rows arbitrary: acc)
  case Nil
  then show ?case by simp
next
  case (Cons row rows)
  show ?case
  proof (cases "Scan row")
    case (Inl err)
    with Cons.prems show ?thesis by simp
  next
    case (Inr p)
    with Cons.prems have "scan_rows (acc @ [p]) rows = Inr ps" by simp
    from Cons.IH [OF this Cons.prems(2)] Inr show ?thesis by auto
  qed
qed

lemma GetAllProducts_total:
  assumes pk: "primary_keys (store pool)"
    and res: "GetAllProducts pool = (Inr ps, c)" and r: "r \<in> set ps"
  shows "TotalProductionTime r = sum_list (link_times (store pool) (ID r))"
proof -
  from res have "scan_rows [] (all_products_query (store pool)) = Inr ps"
    by (cases pool rule: next_fault_cases) (auto simp: GetAllProducts_def)
  from scan_rows_Inr [OF this r] obtain k t where
    "(k, t) \<in> set (group_by_product (joined (store pool)))" and "Scan (k, t) = Inr r"
    by (auto simp: all_products_query_def)
  with group_by_product_all [OF pk] Scan_Inr show ?thesis by metis
qed

lemma GetProductByID_total:
  assumes pk: "primary_keys (store pool)"
    and res: "GetProductByID pool i = (Inr (Some r), c)"
  shows "ID r = i \<and> TotalProductionTime r = sum_list (link_times (store pool) i)"
proof -
  from res have q: "fst (QueryRow_product pool i) = Inr r"
    by (auto simp: GetProductByID_def split: prod.splits sum.splits if_splits)
  then obtain row rest where rows: "product_by_id_query (store pool) i = row # rest"
    and scan: "Scan row = Inr r"
    by (cases pool rule: next_fault_cases)
       (auto simp: QueryRow_product_def split: list.splits)
  obtain k t where row: "row = (k, t)" by (cases row)
  with rows have "(k, t) \<in> set (product_by_id_query (store pool) i)" by simp
  from group_by_product_one [OF pk this] Scan_Inr [OF scan [unfolded row]]
  show ?thesis by simp
qed

text \<open>
  C4. For every product of the aggregated read, the list of \<^verbatim>\<open>GetAllProducts\<close> and
  the point lookup of \<^verbatim>\<open>GetProductByID\<close> alike, \<^verbatim>\<open>total_production_time\<close> is
  the sum of the production times of the links of that product, and it is 0 when the
  product has no link. The tables are taken to satisfy the primary keys of the schema.
  (The witness has links of 2.5 and 3.5, which give 6.0.)
\<close>

theorem total_production_time_is_sum:
  assumes "primary_keys (store pool)"
  shows "(\<forall>ps c r. GetAllProducts pool = (Inr ps, c) \<and> r \<in> set ps
            \<longrightarrow> TotalProductionTime r = sum_list (link_times (store pool) (ID r))
                \<and> (filter (\<lambda>pw. pw_product_id pw = ID r) (products_workshop (store pool)) = []
                     \<longrightarrow> TotalProductionTime r = 0))
       \<and> (\<forall>r c. GetProductByID pool i = (Inr (Some r), c)
            \<longrightarrow> ID r = i
                \<and> TotalProductionTime r = sum_list (link_times (store pool) i)
                \<and> (filter (\<lambda>pw. pw_product_id pw = i) (products_workshop (store pool)) = []
                     \<longrightarrow> TotalProductionTime r = 0))"
proof (intro conjI allI impI)
  fix ps c r
  assume h: "GetAllProducts pool = (Inr ps, c) \<and> r \<in> set ps"
  then show t: "TotalProductionTime r = sum_list (link_times (store pool) (ID r))"
    using GetAllProducts_total [OF assms] by blast
  show "TotalProductionTime r = 0"
    if "filter (\<lambda>pw. pw_product_id pw = ID r) (products_workshop (store pool)) = []"
    using t that by (simp add: link_times_def List.map_filter_simps)
next
  fix r c
  assume h: "GetProductByID pool i = (Inr (Some r), c)"
  from GetProductByID_total [OF assms h]
  show "ID r = i" and t: "TotalProductionTime r = sum_list (link_times (store pool) i)"
    by simp_all
  show "TotalProductionTime r = 0"
    if "filter (\<lambda>pw. pw_product_id pw = i) (products_workshop (store pool)) = []"
    using t that by (simp add: link_times_def List.map_filter_simps)
qed

theorem total_production_time_is_sum_witness:
  "primary_keys (store stocked_pool)
   \<and> link_times (store stocked_pool) 1 = [2.5, 3.5]
   \<and> link_times (store stocked_pool) 2 = []
   \<and> map_sum id (map (\<lambda>r. (ID r, TotalProductionTime r))) (fst (GetAllProducts stocked_pool))
       = Inr [(1, 6.0), (2, 0)]
   \<and> map_sum id (map_option (\<lambda>r. (ID r, TotalProductionTime r))) (fst (GetProductByID stocked_pool 1))
       = Inr (Some (1, 6.0))
   \<and> map_sum id (map_option (\<lambda>r. (ID r, TotalProductionTime r))) (fst (GetProductByID stocked_pool 2))
       = Inr (Some (2, 0))"
proof -
  have pk: "primary_keys (store stocked_pool)" by code_simp
  have l1: "link_times (store stocked_pool) 1 = [5 / 2, 7 / 2]"
    and l2: "link_times (store stocked_pool) 2 = []"
    by code_simp+
  have ids: "map_sum id (map ID) (fst (GetAllProducts stocked_pool)) = Inr [1, 2]"
    "map_sum id (map_option ID) (fst (GetProductByID stocked_pool 1)) = Inr (Some 1)"
    "map_sum id (map_option ID) (fst (GetProductByID stocked_pool 2)) = Inr (Some 2)"
    by code_simp+
  obtain ps c where all: "GetAllProducts stocked_pool = (Inr ps, c)" and idl: "map ID ps = [1, 2]"
    using ids(1) by (cases "GetAllProducts stocked_pool"; cases "fst (GetAllProducts stocked_pool)") auto
  obtain r1 c1 where one: "GetProductByID stocked_pool 1 = (Inr (Some r1), c1)"
    using ids(2) by (cases "GetProductByID stocked_pool 1"; cases "fst (GetProductByID stocked_pool 1)") auto
  obtain r2 c2 where two: "GetProductByID stocked_pool 2 = (Inr (Some r2), c2)"
    using ids(3) by (cases "GetProductByID stocked_pool 2"; cases "fst (GetProductByID stocked_pool 2)") auto
  from idl obtain a ps1 where ps1: "ps = a # ps1" by (cases ps) auto
  with idl obtain b ps2 where ps2: "ps1 = b # ps2" by (cases ps1) auto
  with idl ps1 have ps: "ps = [a, b]" "ID a = 1" "ID b = 2" by simp_all
  note t = total_production_time_is_sum [OF pk]
  have "TotalProductionTime a = sum_list (link_times (store stocked_pool) (ID a))"
    using t [THEN conjunct1, rule_format, where ps = ps and c = c and r = a] all ps by simp
  then have ta: "TotalProductionTime a = 6" by (simp add: ps l1)
  have "TotalProductionTime b = sum_list (link_times (store stocked_pool) (ID b))"
    using t [THEN conjunct1, rule_format, where ps = ps and c = c and r = b] all ps by simp
  then have tb: "TotalProductionTime b = 0" by (simp add: ps l2)
  have "ID r1 = 1 \<and> TotalProductionTime r1 = sum_list (link_times (store stocked_pool) 1)"
    using t [THEN conjunct2, rule_format, where i = 1 and r = r1 and c = c1] one by simp
  then have t1: "ID r1 = 1" "TotalProductionTime r1 = 6" by (simp_all add: l1)
  have "ID r2 = 2 \<and> TotalProductionTime r2 = sum_list (link_times (store stocked_pool) 2)"
    using t [THEN conjunct2, rule_format, where i = 2 and r = r2 and c = c2] two by simp
  then have t2: "ID r2 = 2" "TotalProductionTime r2 = 0" by (simp_all add: l2)
  from ta tb t1 t2 show ?thesis using pk l1 l2 all one two ps by simp
qed

section \<open>The importer\<close>

lemma insert_product_Inl:
  "insert_product d name material type price art = (Inl err, d') \<Longrightarrow>
     products d' = products d \<and> products_workshop d' = products_workshop d"
  by (auto simp: insert_product_def Let_def split: if_splits)

lemma pool_insert_product_Inr:
  assumes "pool_insert_product c name material type price art = (Inr i, c')"
  shows "products (store c') = products (store c) @
           [\<lparr>p_id = i, p_product_name = name, p_material_id = material, p_type_id = type,
             p_min_price = Some price, p_article = Some art\<rparr>]"
    and "products_workshop (store c') = products_workshop (store c)"
    and "txn c' = txn c"
  using assms
  by (cases c rule: next_fault_cases;
      auto simp: pool_insert_product_def Let_def split: prod.splits dest: insert_product_Inr)+

lemma pool_insert_product_Inl:
  "pool_insert_product c name material type price art = (Inl err, c') \<Longrightarrow>
     products (store c') = products (store c) \<and>
     products_workshop (store c') = products_workshop (store c)"
  by (cases c rule: next_fault_cases;
      auto simp: pool_insert_product_def Let_def split: prod.splits dest: insert_product_Inl)

lemma getMaterialID_store: "getMaterialID LOWER c name = (r, c') \<Longrightarrow> store c' = store c"
  by (cases c rule: next_fault_cases)
     (auto simp: getMaterialID_def select_material_id_def Let_def split: list.splits if_splits)

lemma getTypeID_store: "getTypeID LOWER c name = (r, c') \<Longrightarrow> store c' = store c"
  by (cases c rule: next_fault_cases)
     (auto simp: getTypeID_def select_type_id_def Let_def split: list.splits if_splits)













lemma row_error_counted:
  "products (store c) = products (store (conn st)) \<Longrightarrow> counted_error i st (row_error st c i err)"
  by (simp add: counted_error_def row_error_def)

lemma process_row_cases:
  obtains (success) v materialID c1 typeID c2 productID c3 where
      "5 \<le> length row" "parseDecimal pf (row ! 3) = Inr v"
      "getMaterialID LOWER (conn st) (TrimSpace (row ! 4)) = (Inr materialID, c1)"
      "getTypeID LOWER c1 (TrimSpace (row ! 0)) = (Inr typeID, c2)"
      "pool_insert_product c2 (TrimSpace (row ! 1)) materialID typeID v (TrimSpace (row ! 2))
         = (Inr productID, c3)"
      "process_row pf LOWER i row st = st\<lparr>conn := c3, successCount := successCount st + 1\<rparr>"
  | (failure) c err where
      "process_row pf LOWER i row st = row_error st c i err"
      "products (store c) = products (store (conn st))"
      "\<not> (5 \<le> length row \<and>
          (\<exists>v materialID c1 typeID c2 productID c3.
             parseDecimal pf (row ! 3) = Inr v \<and>
             getMaterialID LOWER (conn st) (TrimSpace (row ! 4)) = (Inr materialID, c1) \<and>
             getTypeID LOWER c1 (TrimSpace (row ! 0)) = (Inr typeID, c2) \<and>
             pool_insert_product c2 (TrimSpace (row ! 1)) materialID typeID v (TrimSpace (row ! 2))
               = (Inr productID, c3)))"
proof (cases "length row < 5")
  case True
  then show ?thesis by (intro failure [of "conn st" ErrTooFewColumns]) (simp_all add: process_row_def)
next
  case long: False
  show ?thesis
  proof (cases "parseDecimal pf (row ! 3)")
    case (Inl err)
    with long show ?thesis by (intro failure [of "conn st" err]) (simp_all add: process_row_def)
  next
    case (Inr minPrice)
    obtain r1 c1 where m: "getMaterialID LOWER (conn st) (TrimSpace (row ! 4)) = (r1, c1)"
      by (cases "getMaterialID LOWER (conn st) (TrimSpace (row ! 4))")
    then have s1: "store c1 = store (conn st)" by (rule getMaterialID_store)
    show ?thesis
    proof (cases r1)
      case (Inl err)
      with long Inr m s1 show ?thesis
        by (intro failure [of c1 err]) (simp_all add: process_row_def)
    next
      case mat: (Inr materialID)
      obtain r2 c2 where t: "getTypeID LOWER c1 (TrimSpace (row ! 0)) = (r2, c2)"
        by (cases "getTypeID LOWER c1 (TrimSpace (row ! 0))")
      then have s2: "store c2 = store c1" by (rule getTypeID_store)
      show ?thesis
      proof (cases r2)
        case (Inl err)
        with long Inr m mat t s1 s2 show ?thesis
          by (intro failure [of c2 err]) (simp_all add: process_row_def)
      next
        case ty: (Inr typeID)
        obtain r3 c3 where ins: "pool_insert_product c2 (TrimSpace (row ! 1)) materialID typeID
            minPrice (TrimSpace (row ! 2)) = (r3, c3)"
          by (cases "pool_insert_product c2 (TrimSpace (row ! 1)) materialID typeID
            minPrice (TrimSpace (row ! 2))")
        show ?thesis
        proof (cases r3)
          case (Inl err)
          with ins have "products (store c3) = products (store c2)"
            using pool_insert_product_Inl by blast
          with long Inr m mat t ty ins Inl s1 s2 show ?thesis
            by (intro failure [of c3 "ErrInsert err"]) (simp_all add: process_row_def)
        next
          case (Inr productID)
          with long \<open>parseDecimal pf (row ! 3) = Inr minPrice\<close> m mat t ty ins
          show ?thesis
            by (intro success [of minPrice materialID c1 typeID c2 productID c3])
               (simp_all add: process_row_def)
        qed
      qed
    qed
  qed
qed

lemma process_row_outcome:
  "counted_error i st (process_row pf LOWER i row st) \<or> counted_success st (process_row pf LOWER i row st)"
proof (cases rule: process_row_cases [where row = row and pf = pf and LOWER = LOWER and st = st and i = i])
  case (success v materialID c1 typeID c2 productID c3)
  from success(3) have "store c1 = store (conn st)" by (rule getMaterialID_store)
  moreover from success(4) have "store c2 = store c1" by (rule getTypeID_store)
  moreover note pool_insert_product_Inr(1) [OF success(5)]
  ultimately show ?thesis using success(6) by (simp add: counted_success_def)
next
  case (failure c err)
  then show ?thesis by (simp add: row_error_counted)
qed

lemma process_row_success_iff:
  "counted_success st (process_row pf LOWER i row st) =
     (5 \<le> length row \<and>
        (\<exists>v materialID c1 typeID c2 productID c3.
           parseDecimal pf (row ! 3) = Inr v \<and>
           getMaterialID LOWER (conn st) (TrimSpace (row ! 4)) = (Inr materialID, c1) \<and>
           getTypeID LOWER c1 (TrimSpace (row ! 0)) = (Inr typeID, c2) \<and>
           pool_insert_product c2 (TrimSpace (row ! 1)) materialID typeID v (TrimSpace (row ! 2))
             = (Inr productID, c3)))"
proof (cases rule: process_row_cases [where row = row and pf = pf and LOWER = LOWER and st = st and i = i])
  case (success v materialID c1 typeID c2 productID c3)
  from success(3) have "store c1 = store (conn st)" by (rule getMaterialID_store)
  moreover from success(4) have "store c2 = store c1" by (rule getTypeID_store)
  moreover note pool_insert_product_Inr(1) [OF success(5)]
  ultimately have "counted_success st (process_row pf LOWER i row st)"
    using success(6) by (simp add: counted_success_def)
  with success(1-5) show ?thesis by blast
next
  case (failure c err)
  then have "\<not> counted_success st (process_row pf LOWER i row st)"
    by (simp add: counted_success_def row_error_def)
  with failure(3) show ?thesis by blast
qed

lemma counted_error_logged:
  "counted_error i st st' \<Longrightarrow> length (logged st') = length (logged st) + 1"
  by (cases "logged st'" rule: rev_cases) (auto simp: counted_error_def)

lemma process_row_sum:
  "successCount (process_row pf LOWER i row st) + errorCount (process_row pf LOWER i row st)
     = successCount st + errorCount st + 1"
  and process_row_logged:
  "length (logged (process_row pf LOWER i row st)) + errorCount st
     = length (logged st) + errorCount (process_row pf LOWER i row st)"
proof -
  from process_row_outcome [of i st pf LOWER row]
  show "successCount (process_row pf LOWER i row st) + errorCount (process_row pf LOWER i row st)
     = successCount st + errorCount st + 1"
    by (auto simp: counted_error_def counted_success_def)
  from process_row_outcome [of i st pf LOWER row]
  show "length (logged (process_row pf LOWER i row st)) + errorCount st
     = length (logged st) + errorCount (process_row pf LOWER i row st)"
  proof
    assume e: "counted_error i st (process_row pf LOWER i row st)"
    then have "length (logged (process_row pf LOWER i row st)) = length (logged st) + 1"
      by (rule counted_error_logged)
    with e show ?thesis by (simp add: counted_error_def)
  next
    assume "counted_success st (process_row pf LOWER i row st)"
    then show ?thesis by (simp add: counted_success_def)
  qed
qed

lemma import_rows_sum:
  "successCount (import_rows pf LOWER i rows st) + errorCount (import_rows pf LOWER i rows st)
     = successCount st + errorCount st + (if i = 0 then length rows - 1 else length rows)"
proof (induction rows arbitrary: i st)
  case Nil
  then show ?case by simp
next
  case (Cons row rest)
  show ?case
  proof (cases "i = 0")
    case True
    then show ?thesis using Cons.IH [of "Suc 0" st] by simp
  next
    case False
    then show ?thesis
      using Cons.IH [of "i + 1" "process_row pf LOWER i row st"] process_row_sum [of pf LOWER i row st]
      by simp
  qed
qed

lemma import_rows_logged:
  "length (logged (import_rows pf LOWER i rows st)) + errorCount st
     = length (logged st) + errorCount (import_rows pf LOWER i rows st)"
proof (induction rows arbitrary: i st)
  case Nil
  then show ?case by simp
next
  case (Cons row rest)
  show ?case
  proof (cases "i = 0")
    case True
    then show ?thesis using Cons.IH [of "Suc 0" st] by simp
  next
    case False
    then show ?thesis
      using Cons.IH [of "i + 1" "process_row pf LOWER i row st"] process_row_logged [of pf LOWER i row st]
      by simp
  qed
qed


text \<open>
  C6. The importer is a best-effort batch. The first row is skipped as the header; every
  later row is processed and the loop goes on to the next one whatever happened. A row is
  counted as a success exactly when it has at least five columns and the price, the
  material, the type and the insert all succeed; any other row is counted as one error,
  logs one line and adds no product. The two totals printed at the end sum to the number
  of rows after the header.
\<close>

theorem import_best_effort:
  "import_rows pf LOWER 0 (header # rows) st = import_rows pf LOWER 1 rows st
   \<and> (0 < i \<longrightarrow>
        import_rows pf LOWER i (row # rest) st = import_rows pf LOWER (i + 1) rest (process_row pf LOWER i row st))
   \<and> (counted_success st (process_row pf LOWER i row st) =
        (5 \<le> length row \<and>
          (\<exists>v materialID c1 typeID c2 productID c3.
             parseDecimal pf (row ! 3) = Inr v \<and>
             getMaterialID LOWER (conn st) (TrimSpace (row ! 4)) = (Inr materialID, c1) \<and>
             getTypeID LOWER c1 (TrimSpace (row ! 0)) = (Inr typeID, c2) \<and>
             pool_insert_product c2 (TrimSpace (row ! 1)) materialID typeID v (TrimSpace (row ! 2))
               = (Inr productID, c3))))
   \<and> (counted_success st (process_row pf LOWER i row st) \<or> counted_error i st (process_row pf LOWER i row st))
   \<and> (\<forall>st'. main pf LOWER (Some c) (Some (Some sheet)) = Inr st' \<longrightarrow>
         fst (printed st') + snd (printed st') = length sheet - 1 \<and>
         length (logged st') = snd (printed st'))"
proof (intro conjI)
  show "import_rows pf LOWER 0 (header # rows) st = import_rows pf LOWER 1 rows st" by simp
  show "0 < i \<longrightarrow>
        import_rows pf LOWER i (row # rest) st = import_rows pf LOWER (i + 1) rest (process_row pf LOWER i row st)"
    by simp
  show "counted_success st (process_row pf LOWER i row st) =
        (5 \<le> length row \<and>
          (\<exists>v materialID c1 typeID c2 productID c3.
             parseDecimal pf (row ! 3) = Inr v \<and>
             getMaterialID LOWER (conn st) (TrimSpace (row ! 4)) = (Inr materialID, c1) \<and>
             getTypeID LOWER c1 (TrimSpace (row ! 0)) = (Inr typeID, c2) \<and>
             pool_insert_product c2 (TrimSpace (row ! 1)) materialID typeID v (TrimSpace (row ! 2))
               = (Inr productID, c3)))"
    by (rule process_row_success_iff)
  show "counted_success st (process_row pf LOWER i row st) \<or> counted_error i st (process_row pf LOWER i row st)"
    using process_row_outcome [of i st pf LOWER row] by blast
  show "\<forall>st'. main pf LOWER (Some c) (Some (Some sheet)) = Inr st' \<longrightarrow>
         fst (printed st') + snd (printed st') = length sheet - 1 \<and>
         length (logged st') = snd (printed st')"
    using import_rows_sum [of pf LOWER 0 sheet "\<lparr>conn = c, successCount = 0, errorCount = 0, logged = []\<rparr>"]
      import_rows_logged [of pf LOWER 0 sheet "\<lparr>conn = c, successCount = 0, errorCount = 0, logged = []\<rparr>"]
    by (auto simp: main_def printed_def)
qed

theorem import_best_effort_witness:
  "printed (projr (main ParseFloat_decimal lower_utf8 (Some (example_pool [])) (Some (Some example_rows)))) = (2, 4)
   \<and> length example_rows - 1 = 6
   \<and> map fst (logged (projr (main ParseFloat_decimal lower_utf8 (Some (example_pool []))
        (Some (Some example_rows))))) = [4, 5, 6, 7]
   \<and> (\<exists>st'. main ParseFloat_decimal lower_utf8 (Some (example_pool [])) (Some (Some example_rows)) = Inr st'
         \<and> fst (printed st') + snd (printed st') = length example_rows - 1
         \<and> length (logged st') = snd (printed st'))"
proof -
  have a: "printed (projr (main ParseFloat_decimal lower_utf8 (Some (example_pool []))
      (Some (Some example_rows)))) = (2, 4)"
    by code_simp
  have b: "length example_rows - 1 = 6" by (simp add: example_rows_def)
  have c: "map fst (logged (projr (main ParseFloat_decimal lower_utf8 (Some (example_pool []))
        (Some (Some example_rows))))) = [4, 5, 6, 7]"
    by code_simp
  obtain st' where d: "main ParseFloat_decimal lower_utf8 (Some (example_pool [])) (Some (Some example_rows)) = Inr st'"
    by (simp add: main_def)
  with import_best_effort [where pf = ParseFloat_decimal and LOWER = lower_utf8
      and c = "example_pool []" and sheet = example_rows]
  have "fst (printed st') + snd (printed st') = length example_rows - 1
         \<and> length (logged st') = snd (printed st')"
    by blast
  with a b c d show ?thesis by blast
qed


lemma spaces_after_comma_to_point:
  "filter (\<lambda>c. c \<noteq> CHR '' '') (map (\<lambda>c. if c = CHR '','' then CHR ''.'' else c) xs) =
   map (\<lambda>c. if c = CHR '','' then CHR ''.'' else c) (filter (\<lambda>c. c \<noteq> CHR '' '') xs)"
  by (induction xs) auto

lemma parseDecimal_blank:
  assumes "ReplaceAll (TrimSpace s) (CHR '' '') '''' = ''''"
  shows "parseDecimal pf s = Inr 0"
  using assms
  by (simp add: parseDecimal_def Let_def ReplaceAll_one ReplaceAll_none spaces_after_comma_to_point)

text \<open>
  C10, as the code has it. A comma is not removed but turned into a point, so the claim
  fails for a string of commas: \<^verbatim>\<open>","\<close> becomes \<^verbatim>\<open>"."\<close>, which the parser
  refuses.
\<close>

theorem parseDecimal_comma_counterexample:
  "ReplaceAll (ReplaceAll (TrimSpace '','') (CHR '' '') '''') (CHR '','') '''' = ''''
   \<and> parseDecimal ParseFloat_decimal '','' = Inl (ErrInvalidNumber ErrSyntax)"
  by code_simp

text \<open>
  C10, amended. For every string that is empty or becomes empty after trimming and after
  removing spaces, \<^verbatim>\<open>parseDecimal\<close> returns 0 with no error, whatever the parser; so a
  row whose price cell is such a string, and whose other steps succeed, is imported as a
  product with \<^verbatim>\<open>min_price\<close> 0 and counted as a success.
\<close>

theorem parseDecimal_blank_is_zero:
  assumes "ReplaceAll (TrimSpace s) (CHR '' '') '''' = ''''"
  shows "parseDecimal pf s = Inr 0
    \<and> (\<forall>i row st materialID c1 typeID c2 productID c3.
          5 \<le> length row \<and> row ! 3 = s \<and>
          getMaterialID LOWER (conn st) (TrimSpace (row ! 4)) = (Inr materialID, c1) \<and>
          getTypeID LOWER c1 (TrimSpace (row ! 0)) = (Inr typeID, c2) \<and>
          pool_insert_product c2 (TrimSpace (row ! 1)) materialID typeID 0 (TrimSpace (row ! 2))
            = (Inr productID, c3)
          \<longrightarrow> process_row pf LOWER i row st = st\<lparr>conn := c3, successCount := successCount st + 1\<rparr>
              \<and> products (store c3) = products (store (conn st)) @
                  [\<lparr>p_id = productID, p_product_name = TrimSpace (row ! 1),
                    p_material_id = materialID, p_type_id = typeID,
                    p_min_price = Some 0, p_article = Some (TrimSpace (row ! 2))\<rparr>])"
proof (intro conjI allI impI)
  show zero: "parseDecimal pf s = Inr 0" using assms by (rule parseDecimal_blank)
  fix i row and st :: import_state and materialID c1 typeID c2 productID c3
  assume h: "5 \<le> length row \<and> row ! 3 = s \<and>
          getMaterialID LOWER (conn st) (TrimSpace (row ! 4)) = (Inr materialID, c1) \<and>
          getTypeID LOWER c1 (TrimSpace (row ! 0)) = (Inr typeID, c2) \<and>
          pool_insert_product c2 (TrimSpace (row ! 1)) materialID typeID 0 (TrimSpace (row ! 2))
            = (Inr productID, c3)"
  with zero show "process_row pf LOWER i row st = st\<lparr>conn := c3, successCount := successCount st + 1\<rparr>"
    by (simp add: process_row_def)
  from h have "store c1 = store (conn st)" "store c2 = store c1"
    by (auto dest: getMaterialID_store getTypeID_store)
  with h pool_insert_product_Inr(1) [of c2 _ _ _ _ _ productID c3]
  show "products (store c3) = products (store (conn st)) @
                  [\<lparr>p_id = productID, p_product_name = TrimSpace (row ! 1),
                    p_material_id = materialID, p_type_id = typeID,
                    p_min_price = Some 0, p_article = Some (TrimSpace (row ! 2))\<rparr>]"
    by simp
qed

theorem parseDecimal_blank_is_zero_witness:
  "ReplaceAll (TrimSpace '' '') (CHR '' '') '''' = ''''
   \<and> parseDecimal ParseFloat_decimal '' '' = Inr 0
   \<and> successCount (process_row ParseFloat_decimal lower_utf8 2 blank_price_row (start_state (example_pool []))) = 1
   \<and> errorCount (process_row ParseFloat_decimal lower_utf8 2 blank_price_row (start_state (example_pool []))) = 0
   \<and> map p_min_price (products (store (conn
        (process_row ParseFloat_decimal lower_utf8 2 blank_price_row (start_state (example_pool [])))))) = [Some 0]"
proof -
  let ?c3 = "snd (pool_insert_product (example_pool []) (TrimSpace (blank_price_row ! 1)) 2 1 0
               (TrimSpace (blank_price_row ! 2)))"
  have blank: "ReplaceAll (TrimSpace '' '') (CHR '' '') '''' = ''''" by code_simp
  have len: "5 \<le> length blank_price_row" and cell: "blank_price_row ! 3 = '' ''"
    by (simp_all add: blank_price_row_def)
  have st: "conn (start_state (example_pool [])) = example_pool []"
    "successCount (start_state (example_pool [])) = 0"
    "errorCount (start_state (example_pool [])) = 0"
    by (simp_all add: start_state_def)
  have m: "getMaterialID lower_utf8 (example_pool []) (TrimSpace (blank_price_row ! 4)) = (Inr 2, example_pool [])"
    by code_simp
  have t: "getTypeID lower_utf8 (example_pool []) (TrimSpace (blank_price_row ! 0)) = (Inr 1, example_pool [])"
    by code_simp
  have "fst (pool_insert_product (example_pool []) (TrimSpace (blank_price_row ! 1)) 2 1 0
               (TrimSpace (blank_price_row ! 2))) = Inr 1"
    by code_simp
  then have ins: "pool_insert_product (example_pool []) (TrimSpace (blank_price_row ! 1)) 2 1 0
               (TrimSpace (blank_price_row ! 2)) = (Inr 1, ?c3)"
    by (simp add: prod_eq_iff)
  have tables: "products (store (example_pool [])) = []"
    by (simp add: example_pool_def example_db_def)
  note inst = parseDecimal_blank_is_zero [OF blank, where pf = ParseFloat_decimal
      and LOWER = lower_utf8]
  from inst have zero: "parseDecimal ParseFloat_decimal '' '' = Inr 0" by (rule conjunct1)
  have "process_row ParseFloat_decimal lower_utf8 2 blank_price_row (start_state (example_pool []))
           = (start_state (example_pool []))\<lparr>conn := ?c3,
               successCount := successCount (start_state (example_pool [])) + 1\<rparr>
        \<and> products (store ?c3) = products (store (conn (start_state (example_pool [])))) @
           [\<lparr>p_id = 1, p_product_name = TrimSpace (blank_price_row ! 1),
             p_material_id = 2, p_type_id = 1,
             p_min_price = Some 0, p_article = Some (TrimSpace (blank_price_row ! 2))\<rparr>]"
    by (rule inst [THEN conjunct2, rule_format, where ?c1.0 = "example_pool []"
          and ?c2.0 = "example_pool []"])
       (use len cell st m t ins in simp)
  with zero blank st tables show ?thesis by simp
qed

section \<open>The handlers\<close>

lemma joined_product_ids:
  "r \<in> set (joined d) \<Longrightarrow> fst r \<in> set (products d)"
  by (auto simp: joined_def product_rows_def)

lemma product_by_id_query_absent:
  assumes "i \<notin> set (map p_id (products d))"
  shows "product_by_id_query d i = []"
proof -
  have "filter (\<lambda>r. case r of (p, m, pt, pw) \<Rightarrow> p_id p = i) (joined d) = []"
  proof (rule ccontr)
    assume "filter (\<lambda>r. case r of (p, m, pt, pw) \<Rightarrow> p_id p = i) (joined d) \<noteq> []"
    then obtain r where "r \<in> set (joined d)" "case r of (p, m, pt, pw) \<Rightarrow> p_id p = i"
      by (metis (mono_tags, lifting) filter_False)
    then have "fst r \<in> set (products d)" "p_id (fst r) = i"
      by (auto dest: joined_product_ids split: prod.splits)
    with assms show False by auto
  qed
  then show ?thesis by (simp add: product_by_id_query_def group_by_product_def)
qed

lemma QueryRow_product_store: "QueryRow_product pool i = (r, c1) \<Longrightarrow> store c1 = store pool"
  by (cases pool rule: next_fault_cases)
     (auto simp: QueryRow_product_def Let_def split: list.splits)

lemma GetProductByID_store: "GetProductByID pool i = (r, c1) \<Longrightarrow> store c1 = store pool"
  by (auto simp: GetProductByID_def split: prod.splits sum.splits if_splits
      dest: QueryRow_product_store)

text \<open>
  C5. For every identifier, \<^verbatim>\<open>GetProductByID\<close> tells "not found" from a failure of
  the query: when the row scan reports \<^verbatim>\<open>pgx.ErrNoRows\<close>, which it does whenever the
  driver works and no product has the identifier, the result is \<^verbatim>\<open>nil, nil\<close>, and the
  handler of \<^verbatim>\<open>GET /api/products/:id\<close> answers 404; any other failure of the query
  (a driver error, a \<^verbatim>\<open>NULL\<close> that does not scan) is returned as the error, and the
  handler answers 500.
\<close>

theorem GetProductByID_not_found_is_not_an_error:
  "(QueryRow_product pool i = (Inl ErrNoRows, c1) \<longrightarrow> GetProductByID pool i = (Inr None, c1))
   \<and> (QueryRow_product pool i = (Inl err, c1) \<and> err \<noteq> ErrNoRows
        \<longrightarrow> GetProductByID pool i = (Inl err, c1))
   \<and> (\<not> fst (next_fault pool) \<and> i \<notin> set (map p_id (products (store pool)))
        \<longrightarrow> fst (GetProductByID pool i) = Inr None)
   \<and> (fst (next_fault pool) \<longrightarrow> fst (GetProductByID pool i) = Inl ErrDriver)
   \<and> (scan id_param = Some i \<and> fst (GetProductByID pool i) = Inr None
        \<longrightarrow> fst (GetProductByIDHandler scan pool id_param)
              = [JSON StatusNotFound (ErrorBody MsgProductNotFound)])
   \<and> (scan id_param = Some i \<and> fst (GetProductByID pool i) = Inl err
        \<longrightarrow> fst (GetProductByIDHandler scan pool id_param)
              = [JSON StatusInternalServerError (ErrorBody MsgGetFailed)])"
proof (intro conjI impI)
  show "GetProductByID pool i = (Inr None, c1)" if "QueryRow_product pool i = (Inl ErrNoRows, c1)"
    using that by (simp add: GetProductByID_def)
  show "GetProductByID pool i = (Inl err, c1)"
    if "QueryRow_product pool i = (Inl err, c1) \<and> err \<noteq> ErrNoRows"
    using that by (simp add: GetProductByID_def)
  show "fst (GetProductByID pool i) = Inr None"
    if "\<not> fst (next_fault pool) \<and> i \<notin> set (map p_id (products (store pool)))"
    using that
    by (cases pool rule: next_fault_cases)
       (simp_all add: GetProductByID_def QueryRow_product_def product_by_id_query_absent)
  show "fst (GetProductByID pool i) = Inl ErrDriver" if "fst (next_fault pool)"
    using that
    by (cases pool rule: next_fault_cases) (simp_all add: GetProductByID_def QueryRow_product_def)
  show "fst (GetProductByIDHandler scan pool id_param)
              = [JSON StatusNotFound (ErrorBody MsgProductNotFound)]"
    if "scan id_param = Some i \<and> fst (GetProductByID pool i) = Inr None"
    using that by (cases "GetProductByID pool i") (simp add: GetProductByIDHandler_def)
  show "fst (GetProductByIDHandler scan pool id_param)
              = [JSON StatusInternalServerError (ErrorBody MsgGetFailed)]"
    if "scan id_param = Some i \<and> fst (GetProductByID pool i) = Inl err"
    using that by (cases "GetProductByID pool i") (simp add: GetProductByIDHandler_def)
qed

theorem GetProductByID_not_found_is_not_an_error_witness:
  "QueryRow_product (example_pool []) 7 = (Inl ErrNoRows, example_pool [])
   \<and> GetProductByID (example_pool []) 7 = (Inr None, example_pool [])
   \<and> map status (fst (GetProductByIDHandler Sscanf_d (example_pool []) ''7'')) = [404]
   \<and> QueryRow_product (example_pool [True]) 7 = (Inl ErrDriver, example_pool [])
   \<and> GetProductByID (example_pool [True]) 7 = (Inl ErrDriver, example_pool [])
   \<and> map status (fst (GetProductByIDHandler Sscanf_d (example_pool [True]) ''7'')) = [500]
   \<and> fst (GetProductByID \<lparr>store = null_price_db, txn = None, faults = []\<rparr> 1) = Inl ErrScanNull
   \<and> map status (fst (GetProductByIDHandler Sscanf_d
        \<lparr>store = null_price_db, txn = None, faults = []\<rparr> ''1'')) = [500]"
proof -
  let ?np = "\<lparr>store = null_price_db, txn = None, faults = []\<rparr>"
  have q1: "QueryRow_product (example_pool []) 7 = (Inl ErrNoRows, example_pool [])"
    and q2: "QueryRow_product (example_pool [True]) 7 = (Inl ErrDriver, example_pool [])"
    and q3: "fst (QueryRow_product ?np 1) = Inl ErrScanNull"
    by code_simp+
  have s: "Sscanf_d ''7'' = Some 7" "Sscanf_d ''1'' = Some 1" by code_simp+
  have nf: "\<not> fst (next_fault (example_pool []))" "fst (next_fault (example_pool [True]))"
    by code_simp+
  have absent: "7 \<notin> set (map p_id (products (store (example_pool []))))"
    by code_simp
  have g3: "fst (GetProductByID ?np 1) = Inl ErrScanNull"
    using GetProductByID_not_found_is_not_an_error
      [of ?np 1 "snd (QueryRow_product ?np 1)" ErrScanNull] q3
    by (simp add: prod_eq_iff)
  show ?thesis
    using q1 q2 s nf absent g3
      GetProductByID_not_found_is_not_an_error
        [of "example_pool []" 7 "example_pool []" ErrNoRows Sscanf_d "''7''"]
      GetProductByID_not_found_is_not_an_error
        [of "example_pool [True]" 7 "example_pool []" ErrDriver Sscanf_d "''7''"]
      GetProductByID_not_found_is_not_an_error
        [of ?np 1 "snd (QueryRow_product ?np 1)" ErrScanNull Sscanf_d "''1''"]
    by (simp add: JSON_def)
qed


lemma CreateProduct_Inr:
  assumes "CreateProduct pool input = (Inr productID, c1)"
  shows "products (store c1) = products (store pool) @
           [\<lparr>p_id = productID, p_product_name = cp_ProductName input,
             p_material_id = cp_MaterialID input, p_type_id = cp_TypeID input,
             p_min_price = Some (cp_MinPrice input), p_article = Some (cp_Article input)\<rparr>]"
  using assms pool_insert_product_Inr(1) by (simp add: CreateProduct_def)

text \<open>
  C9. A 500 from \<^verbatim>\<open>POST /api/products\<close> or from
  \<^verbatim>\<open>POST /api/products/with-workshops\<close> does not mean that nothing was created: when
  the creation succeeds and the read-back of the created product fails, the handler
  answers 500 while the new product row, and on the second path its committed links, are
  in the committed tables.
\<close>

theorem created_yet_500:
  "(CreateProduct pool input = (Inr productID, c1) \<and> GetProductByID c1 productID = (Inl err, c2)
      \<longrightarrow> CreateProductHandler pool (Some input)
            = ([JSON StatusInternalServerError (ErrorBody MsgCreatedButNotRead)], c2)
          \<and> products (store c2) = products (store pool) @
               [\<lparr>p_id = productID, p_product_name = cp_ProductName input,
                 p_material_id = cp_MaterialID input, p_type_id = cp_TypeID input,
                 p_min_price = Some (cp_MinPrice input), p_article = Some (cp_Article input)\<rparr>])
   \<and> (CreateProductWithWorkshops pool winput = (Inr productID, c1)
        \<and> GetProductByID c1 productID = (Inl err, c2)
      \<longrightarrow> CreateProductWithWorkshopsHandler pool (Some winput)
            = ([JSON StatusInternalServerError (ErrorBody MsgCreatedButNotRead)], c2)
          \<and> products (store c2) = products (store pool) @
               [\<lparr>p_id = productID, p_product_name = cpw_ProductName winput,
                 p_material_id = cpw_MaterialID winput, p_type_id = cpw_TypeID winput,
                 p_min_price = Some (cpw_MinPrice winput), p_article = Some (cpw_Article winput)\<rparr>]
          \<and> (\<exists>links. products_workshop (store c2) = products_workshop (store pool) @ links \<and>
                 map link_columns links = map (link_of productID) (cpw_Workshops winput)))"
proof (intro conjI impI)
  assume h: "CreateProduct pool input = (Inr productID, c1)
               \<and> GetProductByID c1 productID = (Inl err, c2)"
  then show "CreateProductHandler pool (Some input)
            = ([JSON StatusInternalServerError (ErrorBody MsgCreatedButNotRead)], c2)"
    by (simp add: CreateProductHandler_def)
  from h have "store c2 = store c1" by (auto dest: GetProductByID_store)
  with h CreateProduct_Inr [of pool input productID c1]
  show "products (store c2) = products (store pool) @
               [\<lparr>p_id = productID, p_product_name = cp_ProductName input,
                 p_material_id = cp_MaterialID input, p_type_id = cp_TypeID input,
                 p_min_price = Some (cp_MinPrice input), p_article = Some (cp_Article input)\<rparr>]"
    by simp
next
  assume h: "CreateProductWithWorkshops pool winput = (Inr productID, c1)
        \<and> GetProductByID c1 productID = (Inl err, c2)"
  then show "CreateProductWithWorkshopsHandler pool (Some winput)
            = ([JSON StatusInternalServerError (ErrorBody MsgCreatedButNotRead)], c2)"
    by (simp add: CreateProductWithWorkshopsHandler_def)
  from h have s: "store c2 = store c1" by (auto dest: GetProductByID_store)
  from h have c: "CreateProductWithWorkshops pool winput = (Inr productID, c1)" by simp
  from CreateProductWithWorkshops_Inr [OF c] s
  show "products (store c2) = products (store pool) @
               [\<lparr>p_id = productID, p_product_name = cpw_ProductName winput,
                 p_material_id = cpw_MaterialID winput, p_type_id = cpw_TypeID winput,
                 p_min_price = Some (cpw_MinPrice winput), p_article = Some (cpw_Article winput)\<rparr>]"
    and "\<exists>links. products_workshop (store c2) = products_workshop (store pool) @ links \<and>
                 map link_columns links = map (link_of productID) (cpw_Workshops winput)"
    by simp_all
qed

theorem created_yet_500_witness:
  "fst (CreateProduct (example_pool [False, True]) example_product) = Inr 1
   \<and> map status (fst (CreateProductHandler (example_pool [False, True]) (Some example_product))) = [500]
   \<and> map p_id (products (store (snd
        (CreateProductHandler (example_pool [False, True]) (Some example_product))))) = [1]
   \<and> fst (CreateProductWithWorkshops (example_pool [False, False, False, False, False, True])
        example_input) = Inr 1
   \<and> map status (fst (CreateProductWithWorkshopsHandler
        (example_pool [False, False, False, False, False, True]) (Some example_input))) = [500]
   \<and> map p_id (products (store (snd (CreateProductWithWorkshopsHandler
        (example_pool [False, False, False, False, False, True]) (Some example_input))))) = [1]
   \<and> length (products_workshop (store (snd (CreateProductWithWorkshopsHandler
        (example_pool [False, False, False, False, False, True]) (Some example_input))))) = 2"
proof -
  let ?p = "example_pool [False, True]"
  let ?c1 = "snd (CreateProduct ?p example_product)"
  let ?c2 = "snd (GetProductByID ?c1 1)"
  let ?q = "example_pool [False, False, False, False, False, True]"
  let ?d1 = "snd (CreateProductWithWorkshops ?q example_input)"
  let ?d2 = "snd (GetProductByID ?d1 1)"
  have tables: "products (store (example_pool fs)) = []"
    "products_workshop (store (example_pool fs)) = []" for fs
    by (simp_all add: example_pool_def example_db_def)
  have a: "fst (CreateProduct ?p example_product) = Inr 1" by code_simp
  have b: "fst (GetProductByID ?c1 1) = Inl ErrDriver" by code_simp
  have c: "fst (CreateProductWithWorkshops ?q example_input) = Inr 1" by code_simp
  have d: "fst (GetProductByID ?d1 1) = Inl ErrDriver" by code_simp
  have n: "length (map (link_of 1) (cpw_Workshops example_input)) = 2"
    by (simp add: example_input_def)
  have one: "CreateProductHandler ?p (Some example_product)
            = ([JSON StatusInternalServerError (ErrorBody MsgCreatedButNotRead)], ?c2)
          \<and> products (store ?c2) = products (store ?p) @
               [\<lparr>p_id = 1, p_product_name = cp_ProductName example_product,
                 p_material_id = cp_MaterialID example_product,
                 p_type_id = cp_TypeID example_product,
                 p_min_price = Some (cp_MinPrice example_product),
                 p_article = Some (cp_Article example_product)\<rparr>]"
    by (rule created_yet_500 [THEN conjunct1, rule_format, where ?c1.0 = ?c1 and err = ErrDriver])
       (use a b in \<open>simp add: prod_eq_iff\<close>)
  have two: "CreateProductWithWorkshopsHandler ?q (Some example_input)
            = ([JSON StatusInternalServerError (ErrorBody MsgCreatedButNotRead)], ?d2)
          \<and> products (store ?d2) = products (store ?q) @
               [\<lparr>p_id = 1, p_product_name = cpw_ProductName example_input,
                 p_material_id = cpw_MaterialID example_input, p_type_id = cpw_TypeID example_input,
                 p_min_price = Some (cpw_MinPrice example_input),
                 p_article = Some (cpw_Article example_input)\<rparr>]
          \<and> (\<exists>links. products_workshop (store ?d2) = products_workshop (store ?q) @ links \<and>
                 map link_columns links = map (link_of 1) (cpw_Workshops example_input))"
    by (rule created_yet_500 [THEN conjunct2, rule_format, where ?c1.0 = ?d1 and err = ErrDriver])
       (use c d in \<open>simp add: prod_eq_iff\<close>)
  from two obtain links where l: "products_workshop (store ?d2) = links"
    "map link_columns links = map (link_of 1) (cpw_Workshops example_input)"
    by (auto simp: tables)
  from l(2) n have "length links = 2" by (metis length_map)
  with one two a c l(1) show ?thesis by (simp add: tables JSON_def)
qed

text \<open>The delete handler of \<^verbatim>\<open>main.go\<close> behind its route.\<close>

lemma dispatch_routes_DELETE:
  "dispatch routes DELETE path =
     (case path of
        [a, b, x] \<Rightarrow>
          if a = ''api'' \<and> b = ''products'' \<and> x \<noteq> [] then Some (H_DeleteById, [(''id'', x)])
          else None
      | _ \<Rightarrow> None)"
  by (simp add: routes_def split: list.splits)

lemma Server_DeleteById_one_response:
  "Server_DeleteById scan pool id_param =
     (case scan id_param of
        None \<Rightarrow> ([JSON StatusBadRequest (ErrorBody MsgBadId)], pool)
      | Some product_id \<Rightarrow>
          (if fst (DeleteById pool product_id) = None
           then [JSON StatusOK (MessageBody MsgDeleted)]
           else [JSON StatusBadGateway (ErrorBody MsgDeleteBroke)],
           snd (DeleteById pool product_id)))"
  by (auto simp: Server_DeleteById_def split: option.splits prod.splits)

lemma serve_DELETE_main_go:
  "serve_DELETE scan pool path =
     (case path of
        [a, b, x] \<Rightarrow>
          if a = ''api'' \<and> b = ''products'' \<and> x \<noteq> []
          then Some (Server_DeleteById scan pool x) else None
      | _ \<Rightarrow> None)"
  by (simp add: serve_DELETE_def dispatch_routes_DELETE Param_def split: list.splits)

text \<open>The delete handler of the second copy, whenever the identifier parses and the delete fails.\<close>

lemma Server_DeleteById_part_001_two_responses:
  assumes "scan id_param = Some product_id" and "fst (DeleteById pool product_id) = Some err"
  shows "fst (Server_DeleteById_part_001 scan pool id_param) =
           [JSON StatusBadGateway (ErrorBody MsgDeleteBroke), JSON StatusOK (MessageBody MsgDeleted)]"
  using assms by (cases "DeleteById pool product_id") (simp add: Server_DeleteById_part_001_def)

lemma dispatch_routes_part_001_DELETE:
  "dispatch routes_part_001 DELETE path =
     (case path of
        [a, b] \<Rightarrow> if a = ''api'' \<and> b = ''products'' then Some (H_DeleteById, []) else None
      | _ \<Rightarrow> None)"
  by (simp add: routes_part_001_def split: list.splits)

text \<open>
  C3. The claim holds for \<^verbatim>\<open>main.go\<close> (lemmas \<open>dispatch_routes_DELETE\<close>,
  \<open>Server_DeleteById_one_response\<close> and \<open>serve_DELETE_main_go\<close>: one route,
  \<^verbatim>\<open>DELETE /api/products/:id\<close>, and one response per request, 400, 502 or 200).
  The second copy of the server breaks it. Its route is \<^verbatim>\<open>DELETE /api/products\<close>, so
  \<^verbatim>\<open>DELETE /api/products/7\<close> reaches no handler, and the handler behind the route it has
  reads an empty \<^verbatim>\<open>id\<close> and answers 400 always; and its handler, on an identifier that
  parses and a delete that fails, writes the 502 error and then the 200 message, having
  no \<^verbatim>\<open>return\<close> in between. Evaluated here on a database without product 7.
\<close>

theorem part_001_DELETE_diverges:
  "serve_DELETE_part_001 Sscanf_d (example_pool []) [''api'', ''products'', ''7''] = None
   \<and> map status (fst (the (serve_DELETE_part_001 Sscanf_d (example_pool [])
        [''api'', ''products'']))) = [400]
   \<and> Sscanf_d ''7'' = Some 7
   \<and> fst (DeleteById (example_pool []) 7) = Some ErrNothingDeleted
   \<and> map status (fst (Server_DeleteById_part_001 Sscanf_d (example_pool []) ''7'')) = [502, 200]
   \<and> map status (fst (Server_DeleteById Sscanf_d (example_pool []) ''7'')) = [502]
   \<and> map status (fst (the (serve_DELETE Sscanf_d (example_pool [])
        [''api'', ''products'', ''7'']))) = [502]"
  by code_simp

end
